theory Spec2Isabelle
  imports Main "HOL-Library.AList"
begin

section \<open>Python values, declared types and dictionaries\<close>

text \<open>
  The declared type of a dataclass field, as far as \<^verbatim>\<open>wrappers.py\<close> inspects it:
  \<^verbatim>\<open>enum.Enum in f.type.mro()\<close>, \<^verbatim>\<open>f.type is bool\<close>,
  \<^verbatim>\<open>dataclasses.is_dataclass(f.type)\<close> and the predicates of \<^verbatim>\<open>utils\<close>.
  An enumeration type carries its name and the ordered list of its member names
  (what iterating over the class yields); a dataclass type carries its name.
\<close>

datatype ftype =
    TInt
  | TFloat
  | TStr
  | TBool
  | TEnum string "string list"
  | TList ftype
  | TTuple ftype
  | TDataclass string

text \<open>
  The callables other than classes that the derivation stores under the key
  \<^verbatim>\<open>"type"\<close>: \<^verbatim>\<open>utils.str2bool\<close> and the result of
  \<^verbatim>\<open>utils._parse_multiple_containers(f.type)\<close>.
\<close>

datatype callable = Str2Bool | ParseMultipleContainers ftype

text \<open>
  Python values as they occur in defaults, in argument specifications and in parsed
  arguments. \<open>VEnum e m\<close> is the member named \<open>m\<close> of the enumeration \<open>e\<close>;
  \<open>VType t\<close> is a class used as a value (as in \<^verbatim>\<open>arg_options["type"] = str\<close>).
\<close>

datatype pyval =
    VNone
  | VBool bool
  | VInt int
  | VStr string
  | VList "pyval list"
  | VTuple "pyval list"
  | VEnum string string
  | VType ftype
  | VCallable callable

text \<open>
  A \<^verbatim>\<open>dict\<close> keeps its keys in insertion order; assigning to an existing key keeps the
  key's position. \<open>AList.update\<close> does exactly that, \<open>map_of\<close> is the lookup, and the
  empty list is the empty (falsy) dict.
\<close>

type_synonym dict = "(string \<times> pyval) list"

text \<open>The exceptions the two classes can raise. Only the message a claim speaks of is kept.\<close>

datatype error =
    AssertionError
  | KeyError
  | TypeError
  | RuntimeError
  | InconsistentArgumentError string

text \<open>Truth value of a Python object, as \<^verbatim>\<open>not x\<close> and \<^verbatim>\<open>if x:\<close> take it.\<close>

fun truthy :: "pyval \<Rightarrow> bool" where
  "truthy VNone = False"
| "truthy (VBool b) = b"
| "truthy (VInt i) = (i \<noteq> 0)"
| "truthy (VStr s) = (s \<noteq> [])"
| "truthy (VList xs) = (xs \<noteq> [])"
| "truthy (VTuple xs) = (xs \<noteq> [])"
| "truthy (VEnum e m) = True"
| "truthy (VType t) = True"
| "truthy (VCallable c) = True"

section \<open>Collaborators outside the source file\<close>

text \<open>
  Modelled from the spec: the type predicates of \<^verbatim>\<open>utils\<close> and of the standard library
  (is-record-type, is-list-or-tuple-type, is-list-or-tuple-of-record-type,
  extract-element-type, is-enumeration-type) are not in the source; they are read off
  the declared type.
\<close>

fun is_dataclass_type :: "ftype \<Rightarrow> bool" where
  "is_dataclass_type (TDataclass n) = True"
| "is_dataclass_type t = False"

fun is_tuple :: "ftype \<Rightarrow> bool" where
  "is_tuple (TTuple t) = True"
| "is_tuple t = False"

fun is_list :: "ftype \<Rightarrow> bool" where
  "is_list (TList t) = True"
| "is_list t = False"

definition is_tuple_or_list :: "ftype \<Rightarrow> bool" where
  "is_tuple_or_list t = (is_tuple t \<or> is_list t)"

fun is_tuple_or_list_of_dataclasses_type :: "ftype \<Rightarrow> bool" where
  "is_tuple_or_list_of_dataclasses_type (TList t) = is_dataclass_type t"
| "is_tuple_or_list_of_dataclasses_type (TTuple t) = is_dataclass_type t"
| "is_tuple_or_list_of_dataclasses_type t = False"

fun get_argparse_container_type :: "ftype \<Rightarrow> ftype" where
  "get_argparse_container_type (TList t) = t"
| "get_argparse_container_type (TTuple t) = t"
| "get_argparse_container_type t = t"

text \<open>\<^verbatim>\<open>enum.Enum in f.type.mro()\<close>\<close>

fun is_enum :: "ftype \<Rightarrow> bool" where
  "is_enum (TEnum e ms) = True"
| "is_enum t = False"

text \<open>\<^verbatim>\<open>list(e.name for e in f.type)\<close>, for an enumeration type.\<close>

fun member_names :: "ftype \<Rightarrow> string list" where
  "member_names (TEnum e ms) = ms"
| "member_names t = []"

text \<open>
  \<^verbatim>\<open>f.type[value]\<close>: the member of that name, \<^verbatim>\<open>KeyError\<close> when there is none
  (\<^verbatim>\<open>TypeError\<close> for a list, which cannot be a dictionary key).
\<close>

fun enum_getitem :: "ftype \<Rightarrow> pyval \<Rightarrow> error + pyval" where
  "enum_getitem (TEnum e ms) (VStr s) = (if s \<in> set ms then Inr (VEnum e s) else Inl KeyError)"
| "enum_getitem t (VList xs) = Inl TypeError"
| "enum_getitem t v = Inl KeyError"

text \<open>\<^verbatim>\<open>tuple(value)\<close> and \<^verbatim>\<open>list(value)\<close>: the items of an iterable, \<^verbatim>\<open>TypeError\<close> otherwise.\<close>

fun py_iter :: "pyval \<Rightarrow> error + pyval list" where
  "py_iter (VList xs) = Inr xs"
| "py_iter (VTuple xs) = Inr xs"
| "py_iter (VStr s) = Inr (map (\<lambda>c. VStr [c]) s)"
| "py_iter v = Inl TypeError"

definition py_tuple :: "pyval \<Rightarrow> error + pyval" where
  "py_tuple v = (case py_iter v of Inl e \<Rightarrow> Inl e | Inr xs \<Rightarrow> Inr (VTuple xs))"

definition py_list :: "pyval \<Rightarrow> error + pyval" where
  "py_list v = (case py_iter v of Inl e \<Rightarrow> Inl e | Inr xs \<Rightarrow> Inr (VList xs))"

text \<open>\<^verbatim>\<open>str(n)\<close> for a length or a count, as the f-string of the error message formats it.\<close>

fun str_nat :: "nat \<Rightarrow> string" where
  "str_nat n =
     (if n < 10 then [char_of (48 + n)]
      else str_nat (n div 10) @ [char_of (48 + n mod 10)])"

declare str_nat.simps [simp del]

definition str_int :: "int \<Rightarrow> string" where
  "str_int i = (if i < 0 then CHR ''-'' # str_nat (nat (- i)) else str_nat (nat i))"

section \<open>The data model\<close>

text \<open>
  \<^verbatim>\<open>dataclasses.Field\<close>, with the attributes the wrappers read. \<open>None\<close> stands for
  \<^verbatim>\<open>dataclasses.MISSING\<close>; a default factory is a callable without arguments.
\<close>

record dc_field =
  f_name :: string
  f_type :: ftype
  f_default :: "pyval option"
  f_default_factory :: "(unit \<Rightarrow> pyval) option"
  f_init :: bool

text \<open>\<^verbatim>\<open>docstring.AttributeDocString\<close>: the three help-text candidates.\<close>

record AttributeDocString =
  comment_above :: string
  comment_inline :: string
  docstring_below :: string

text \<open>
  The dictionaries that \<^verbatim>\<open>FieldWrapper\<close> caches are objects: the property hands out a
  reference, and \<^verbatim>\<open>_arg_options.clear()\<close> empties the object in place. The store maps
  references (positions) to dictionaries; a new object takes the next position.
\<close>

type_synonym ref = nat
type_synonym heap = "dict list"

definition new_dict :: "dict \<Rightarrow> heap \<Rightarrow> ref \<times> heap" where
  "new_dict d h = (length h, h @ [d])"

text \<open>
  \<^verbatim>\<open>class FieldWrapper\<close>. \<open>fw_arg_options\<close>, \<open>fw_docstring\<close>, \<open>fw_multiple\<close> and
  \<open>fw_required\<close> are the attributes \<^verbatim>\<open>_arg_options\<close>, \<^verbatim>\<open>_docstring\<close>, \<^verbatim>\<open>_multiple\<close> and
  \<^verbatim>\<open>_required\<close>.
\<close>

record FieldWrapper =
  field :: dc_field
  name_prefix :: string
  fw_arg_options :: ref
  fw_docstring :: "AttributeDocString option"
  fw_multiple :: bool
  fw_required :: "bool option"

text \<open>
  The generated \<^verbatim>\<open>__init__\<close> with \<^verbatim>\<open>__post_init__\<close>. The result of
  \<^verbatim>\<open>docstring.get_attribute_docstring\<close> is passed in, since that module is not in the
  source.
\<close>

definition FieldWrapper_init ::
  "dc_field \<Rightarrow> AttributeDocString option \<Rightarrow> string \<Rightarrow> heap \<Rightarrow> FieldWrapper \<times> heap" where
  "FieldWrapper_init f doc prefix h =
     (let (r, h') = new_dict [] h
      in (\<lparr>field = f, name_prefix = prefix, fw_arg_options = r, fw_docstring = doc,
           fw_multiple = False, fw_required = None\<rparr>, h'))"

definition FieldWrapper_name :: "FieldWrapper \<Rightarrow> string" where
  "FieldWrapper_name fw = name_prefix fw @ f_name (field fw)"

definition is_dataclass :: "FieldWrapper \<Rightarrow> bool" where
  "is_dataclass fw = is_dataclass_type (f_type (field fw))"

definition is_tuple_or_list_of_dataclasses :: "FieldWrapper \<Rightarrow> bool" where
  "is_tuple_or_list_of_dataclasses fw = is_tuple_or_list_of_dataclasses_type (f_type (field fw))"

definition FieldWrapper_required :: "FieldWrapper \<Rightarrow> bool" where
  "FieldWrapper_required fw =
     (case fw_required fw of
        Some r \<Rightarrow> r
      | None \<Rightarrow> f_default (field fw) = None \<and> f_default_factory (field fw) = None)"

definition FieldWrapper_required_setter :: "bool \<Rightarrow> FieldWrapper \<Rightarrow> FieldWrapper" where
  "FieldWrapper_required_setter v fw = fw\<lparr>fw_required := Some v\<rparr>"

definition FieldWrapper_multiple :: "FieldWrapper \<Rightarrow> bool" where
  "FieldWrapper_multiple fw = fw_multiple fw"

definition FieldWrapper_multiple_setter ::
  "bool \<Rightarrow> FieldWrapper \<Rightarrow> heap \<Rightarrow> FieldWrapper \<times> heap" where
  "FieldWrapper_multiple_setter v fw h =
     (let h' = (if v \<noteq> fw_multiple fw then h[fw_arg_options fw := []] else h)
      in (fw\<lparr>fw_multiple := v\<rparr>, h'))"

section \<open>Derivation of the argument specification\<close>

text \<open>Lines 80--90 of \<^verbatim>\<open>_get_arg_options\<close>: the declared type and the help text.\<close>

definition base_options :: "FieldWrapper \<Rightarrow> dict" where
  "base_options fw =
     (let arg_options = [(''type'', VType (f_type (field fw)))]
      in case fw_docstring fw of
           None \<Rightarrow> arg_options
         | Some d \<Rightarrow>
             if docstring_below d \<noteq> [] then
               AList.update ''help'' (VStr (docstring_below d)) arg_options
             else if comment_above d \<noteq> [] then
               AList.update ''help'' (VStr (comment_above d)) arg_options
             else if comment_inline d \<noteq> [] then
               AList.update ''help'' (VStr (comment_inline d)) arg_options
             else arg_options)"

text \<open>Lines 92--97: the declared default, the factory's result, or \<^verbatim>\<open>required\<close>.\<close>

definition default_options :: "FieldWrapper \<Rightarrow> dict \<Rightarrow> dict" where
  "default_options fw arg_options =
     (case f_default (field fw) of
        Some d \<Rightarrow> AList.update ''default'' d arg_options
      | None \<Rightarrow>
          (case f_default_factory (field fw) of
             Some factory \<Rightarrow> AList.update ''default'' (factory ()) arg_options
           | None \<Rightarrow> AList.update ''required'' (VBool True) arg_options))"

text \<open>Lines 99--106: the enumeration branch.\<close>

definition enum_options :: "FieldWrapper \<Rightarrow> dict \<Rightarrow> dict" where
  "enum_options fw arg_options0 =
     (let arg_options =
            AList.update ''choices'' (VList (map VStr (member_names (f_type (field fw)))))
              arg_options0;
          arg_options = AList.update ''type'' (VType TStr) arg_options
      in case map_of arg_options ''default'' of
           None \<Rightarrow> arg_options
         | Some default_value \<Rightarrow>
             (case default_value of
                VEnum e m \<Rightarrow> AList.update ''default'' (VStr m) arg_options
              | _ \<Rightarrow> arg_options))"

text \<open>Lines 108--120: the branch of lists and tuples.\<close>

definition container_options :: "FieldWrapper \<Rightarrow> dict \<Rightarrow> dict" where
  "container_options fw arg_options0 =
     (let T = get_argparse_container_type (f_type (field fw));
          arg_options = AList.update ''nargs'' (VStr ''*'') arg_options0
      in if FieldWrapper_multiple fw then
           AList.update ''type'' (VCallable (ParseMultipleContainers (f_type (field fw))))
             arg_options
         else AList.update ''type'' (VType T) arg_options)"

text \<open>Lines 122--127: the boolean branch.\<close>

definition bool_options :: "FieldWrapper \<Rightarrow> dict \<Rightarrow> dict" where
  "bool_options fw arg_options0 =
     (let arg_options =
            AList.update ''default''
              (case f_default (field fw) of None \<Rightarrow> VBool False | Some d \<Rightarrow> d) arg_options0;
          arg_options = AList.update ''type'' (VCallable Str2Bool) arg_options;
          arg_options =
            AList.update ''nargs'' (VStr (if FieldWrapper_multiple fw then ''*'' else ''?''))
              arg_options
      in if f_default (field fw) = None then
           AList.update ''required'' (VBool True) arg_options
         else arg_options)"

text \<open>
  Lines 79--127: the specification as it stands before the multiple-mode step, for a
  field that passed the three early returns.
\<close>

definition category_options :: "FieldWrapper \<Rightarrow> dict" where
  "category_options fw =
     (let f = field fw;
          arg_options = default_options fw (base_options fw)
      in if is_enum (f_type f) then enum_options fw arg_options
         else if is_tuple_or_list (f_type f) then container_options fw arg_options
         else if f_type f = TBool then bool_options fw arg_options
         else arg_options)"

text \<open>
  Lines 129--135, entered when \<^verbatim>\<open>multiple\<close> holds. \<^verbatim>\<open>arg_options["default"]\<close> raises
  \<^verbatim>\<open>KeyError\<close> on a dictionary without that key.
\<close>

definition multiple_options :: "dict \<Rightarrow> error + dict" where
  "multiple_options arg_options =
     (let required = (case map_of arg_options ''required'' of None \<Rightarrow> VBool False | Some r \<Rightarrow> r)
      in if truthy required then Inr (AList.update ''nargs'' (VStr ''+'') arg_options)
         else
           (case map_of (AList.update ''nargs'' (VStr ''*'') arg_options) ''default'' of
              None \<Rightarrow> Inl KeyError
            | Some d \<Rightarrow>
                Inr (AList.update ''default'' (VList [d])
                       (AList.update ''nargs'' (VStr ''*'') arg_options))))"

text \<open>\<^verbatim>\<open>FieldWrapper._get_arg_options\<close>: the contents of the dictionary it builds.\<close>

definition get_arg_options :: "FieldWrapper \<Rightarrow> error + dict" where
  "get_arg_options fw =
     (let f = field fw;
          multiple = FieldWrapper_multiple fw
      in if \<not> f_init f then Inr []
         else if is_dataclass fw then Inr []
         else if is_tuple_or_list_of_dataclasses fw then Inr []
         else
           (let arg_options = category_options fw
            in if multiple then multiple_options arg_options else Inr arg_options))"

text \<open>
  The property \<^verbatim>\<open>FieldWrapper.arg_options\<close>: a non-empty cached dictionary is returned as
  it is; otherwise \<^verbatim>\<open>_get_arg_options\<close> builds a new dictionary object, which becomes the
  cache and the result.
\<close>

definition FieldWrapper_arg_options ::
  "FieldWrapper \<Rightarrow> heap \<Rightarrow> error + (ref \<times> FieldWrapper \<times> heap)" where
  "FieldWrapper_arg_options fw h =
     (if h ! fw_arg_options fw \<noteq> [] then Inr (fw_arg_options fw, fw, h)
      else
        (case get_arg_options fw of
           Inl e \<Rightarrow> Inl e
         | Inr d \<Rightarrow>
             (let (r, h') = new_dict d h
              in Inr (r, fw\<lparr>fw_arg_options := r\<rparr>, h'))))"

section \<open>The record descriptor\<close>

text \<open>
  A dataclass type: its name and \<^verbatim>\<open>dataclasses.fields(cls)\<close>, in declaration order.
\<close>

record dataclass_t =
  dc_name :: string
  dc_fields :: "dc_field list"

text \<open>
  \<^verbatim>\<open>class DataclassWrapper\<close>. \<open>dw_fields\<close> is the attribute \<^verbatim>\<open>fields\<close>;
  \<open>dw_multiple\<close>, \<open>dw_required\<close> and \<open>dw_argument_names_prefix\<close> are the attributes
  \<^verbatim>\<open>_multiple\<close>, \<^verbatim>\<open>_required\<close> and \<^verbatim>\<open>_argument_names_prefix\<close>.
\<close>

record DataclassWrapper =
  dataclass :: dataclass_t
  dw_fields :: "FieldWrapper list"
  dw_multiple :: bool
  dw_required :: bool
  dw_argument_names_prefix :: string

text \<open>
  The loop of \<^verbatim>\<open>__post_init__\<close>: one \<^verbatim>\<open>FieldWrapper\<close> per declared field, appended in
  declaration order. \<open>docs\<close> stands for \<^verbatim>\<open>docstring.get_attribute_docstring\<close> on this
  dataclass.
\<close>

fun wrap_fields ::
  "(string \<Rightarrow> AttributeDocString option) \<Rightarrow> string \<Rightarrow> dc_field list \<Rightarrow> heap
     \<Rightarrow> FieldWrapper list \<times> heap" where
  "wrap_fields docs prefix [] h = ([], h)"
| "wrap_fields docs prefix (f # fs) h =
     (let (fw, h1) = FieldWrapper_init f (docs (f_name f)) prefix h;
          (fws, h2) = wrap_fields docs prefix fs h1
      in (fw # fws, h2))"

definition DataclassWrapper_init ::
  "dataclass_t \<Rightarrow> (string \<Rightarrow> AttributeDocString option) \<Rightarrow> string \<Rightarrow> heap
     \<Rightarrow> DataclassWrapper \<times> heap" where
  "DataclassWrapper_init cls docs prefix h =
     (let (fws, h') = wrap_fields docs prefix (dc_fields cls) h
      in (\<lparr>dataclass = cls, dw_fields = fws, dw_multiple = False, dw_required = False,
           dw_argument_names_prefix = prefix\<rparr>, h'))"

definition DataclassWrapper_prefix :: "DataclassWrapper \<Rightarrow> string" where
  "DataclassWrapper_prefix dw = dw_argument_names_prefix dw"

definition DataclassWrapper_prefix_setter :: "string \<Rightarrow> DataclassWrapper \<Rightarrow> DataclassWrapper" where
  "DataclassWrapper_prefix_setter v dw =
     dw\<lparr>dw_argument_names_prefix := v,
        dw_fields := map (\<lambda>wrapped_field. wrapped_field\<lparr>name_prefix := v\<rparr>) (dw_fields dw)\<rparr>"

definition DataclassWrapper_required :: "DataclassWrapper \<Rightarrow> bool" where
  "DataclassWrapper_required dw = dw_required dw"

definition DataclassWrapper_required_setter ::
  "bool \<Rightarrow> DataclassWrapper \<Rightarrow> DataclassWrapper" where
  "DataclassWrapper_required_setter v dw =
     dw\<lparr>dw_required := v, dw_fields := map (FieldWrapper_required_setter v) (dw_fields dw)\<rparr>"

definition DataclassWrapper_multiple :: "DataclassWrapper \<Rightarrow> bool" where
  "DataclassWrapper_multiple dw = dw_multiple dw"

text \<open>The loop of the \<^verbatim>\<open>multiple\<close> setter: every field's setter, in order, on the same store.\<close>

fun set_multiple_fields :: "bool \<Rightarrow> FieldWrapper list \<Rightarrow> heap \<Rightarrow> FieldWrapper list \<times> heap" where
  "set_multiple_fields v [] h = ([], h)"
| "set_multiple_fields v (fw # fws) h =
     (let (fw', h1) = FieldWrapper_multiple_setter v fw h;
          (fws', h2) = set_multiple_fields v fws h1
      in (fw' # fws', h2))"

definition DataclassWrapper_multiple_setter ::
  "bool \<Rightarrow> DataclassWrapper \<Rightarrow> heap \<Rightarrow> DataclassWrapper \<times> heap" where
  "DataclassWrapper_multiple_setter v dw h =
     (let (fws, h') = set_multiple_fields v (dw_fields dw) h
      in (dw\<lparr>dw_fields := fws, dw_multiple := v\<rparr>, h'))"

subsection \<open>Extraction of the constructor arguments\<close>

text \<open>The message of the \<^verbatim>\<open>InconsistentArgumentError\<close> raised at lines 226--228.\<close>

definition inconsistent_message :: "string \<Rightarrow> nat \<Rightarrow> int \<Rightarrow> string" where
  "inconsistent_message fname len num_instances_to_parse =
     ''The field '' @ [CHR 0x27] @ fname @ [CHR 0x27] @ '' contains '' @ str_nat len
       @ '' values, but either 1 or '' @ str_int num_instances_to_parse
       @ '' values were expected.''"

text \<open>
  Lines 213--230: what is stored under \<^verbatim>\<open>instance_arguments[f.name]\<close> for instance \<open>i\<close>
  and one field that is neither skipped, or the exception raised on the way. A failed
  \<^verbatim>\<open>assert\<close> is an \<^verbatim>\<open>AssertionError\<close>.
\<close>

definition instance_argument ::
  "bool \<Rightarrow> int \<Rightarrow> dict \<Rightarrow> nat \<Rightarrow> FieldWrapper \<Rightarrow> error + pyval" where
  "instance_argument multiple n args_dict i wrapped_field =
     (if is_tuple_or_list_of_dataclasses wrapped_field then Inl AssertionError
      else
        (case map_of args_dict (FieldWrapper_name wrapped_field) of
           None \<Rightarrow> Inl AssertionError
         | Some v \<Rightarrow>
             if multiple then
               (case v of
                  VList xs \<Rightarrow>
                    if length xs = 1 then Inr (xs ! 0)
                    else if int (length xs) = n then Inr (xs ! i)
                    else
                      Inl (InconsistentArgumentError
                             (inconsistent_message (f_name (field wrapped_field)) (length xs) n))
                | _ \<Rightarrow> Inl AssertionError)
             else Inr v))"

text \<open>
  Lines 203--230: the loop over the wrapped fields for instance \<open>i\<close>, which fills
  \<^verbatim>\<open>instance_arguments\<close>.
\<close>

fun instance_arguments_loop ::
  "bool \<Rightarrow> int \<Rightarrow> dict \<Rightarrow> nat \<Rightarrow> FieldWrapper list \<Rightarrow> dict \<Rightarrow> error + dict" where
  "instance_arguments_loop multiple n args_dict i [] instance_arguments = Inr instance_arguments"
| "instance_arguments_loop multiple n args_dict i (wrapped_field # rest) instance_arguments =
     (let f = field wrapped_field
      in if \<not> f_init f then
           instance_arguments_loop multiple n args_dict i rest instance_arguments
         else if is_dataclass wrapped_field then
           instance_arguments_loop multiple n args_dict i rest instance_arguments
         else
           (case instance_argument multiple n args_dict i wrapped_field of
              Inl e \<Rightarrow> Inl e
            | Inr v \<Rightarrow>
                instance_arguments_loop multiple n args_dict i rest
                  (AList.update (f_name f) v instance_arguments)))"

text \<open>Lines 199--231: the loop over \<^verbatim>\<open>range(num_instances_to_parse)\<close>.\<close>

fun constructor_arguments_loop ::
  "bool \<Rightarrow> int \<Rightarrow> dict \<Rightarrow> FieldWrapper list \<Rightarrow> nat list \<Rightarrow> dict list \<Rightarrow> error + dict list" where
  "constructor_arguments_loop multiple n args_dict fws [] constructor_arguments =
     Inr constructor_arguments"
| "constructor_arguments_loop multiple n args_dict fws (i # is) constructor_arguments =
     (case instance_arguments_loop multiple n args_dict i fws [] of
        Inl e \<Rightarrow> Inl e
      | Inr instance_arguments \<Rightarrow>
          constructor_arguments_loop multiple n args_dict fws is
            (constructor_arguments @ [instance_arguments]))"

text \<open>\<^verbatim>\<open>DataclassWrapper.get_constructor_arguments\<close>, on the arguments as a dictionary.\<close>

definition get_constructor_arguments ::
  "DataclassWrapper \<Rightarrow> dict \<Rightarrow> int \<Rightarrow> error + dict list" where
  "get_constructor_arguments dw args_dict num_instances_to_parse =
     (if DataclassWrapper_multiple dw \<and> \<not> num_instances_to_parse > 1 then Inl AssertionError
      else if \<not> DataclassWrapper_multiple dw \<and> num_instances_to_parse \<noteq> 1 then
        Inl AssertionError
      else
        constructor_arguments_loop (DataclassWrapper_multiple dw) num_instances_to_parse
          args_dict (dw_fields dw) [0 ..< nat num_instances_to_parse] [])"

subsection \<open>Materialization\<close>

text \<open>
  Lines 248--274: the value stored under \<^verbatim>\<open>constructor_args[f.name]\<close> for one field
  that takes part in construction, or the exception raised on the way.
\<close>

definition constructor_arg :: "dict \<Rightarrow> FieldWrapper \<Rightarrow> error + pyval" where
  "constructor_arg args_dict wrapped_field =
     (let f = field wrapped_field
      in case map_of args_dict (f_name f) of
           None \<Rightarrow> Inl KeyError
         | Some v \<Rightarrow>
             if is_tuple_or_list_of_dataclasses wrapped_field then Inl AssertionError
             else if is_enum (f_type f) then enum_getitem (f_type f) v
             else if is_tuple (f_type f) then py_tuple v
             else if is_list (f_type f) then py_list v
             else if f_type f = TBool then
               (let default_value = (case f_default f of None \<Rightarrow> VBool False | Some d \<Rightarrow> d)
                in case v of
                     VNone \<Rightarrow> Inr (VBool (\<not> truthy default_value))
                   | VBool b \<Rightarrow> Inr (VBool b)
                   | _ \<Rightarrow> Inl RuntimeError)
             else Inr v)"

text \<open>Lines 243--274: the loop that fills \<^verbatim>\<open>constructor_args\<close>.\<close>

fun constructor_args_loop :: "dict \<Rightarrow> FieldWrapper list \<Rightarrow> dict \<Rightarrow> error + dict" where
  "constructor_args_loop args_dict [] constructor_args = Inr constructor_args"
| "constructor_args_loop args_dict (wrapped_field # rest) constructor_args =
     (if \<not> f_init (field wrapped_field) then
        constructor_args_loop args_dict rest constructor_args
      else
        (case constructor_arg args_dict wrapped_field of
           Inl e \<Rightarrow> Inl e
         | Inr v \<Rightarrow>
             constructor_args_loop args_dict rest
               (AList.update (f_name (field wrapped_field)) v constructor_args)))"

text \<open>
  Modelled from the spec: the constructor of the wrapped record type is not in the
  source; it "constructs one instance of the record type with the resulting keyword
  arguments", so an instance is its class with the attributes set from them.
\<close>

record dc_instance =
  inst_class :: dataclass_t
  inst_attrs :: dict

definition construct :: "dataclass_t \<Rightarrow> dict \<Rightarrow> dc_instance" where
  "construct cls kwargs = \<lparr>inst_class = cls, inst_attrs = kwargs\<rparr>"

definition getattr :: "dc_instance \<Rightarrow> string \<Rightarrow> pyval option" where
  "getattr inst a = map_of (inst_attrs inst) a"

text \<open>\<^verbatim>\<open>DataclassWrapper.instantiate_dataclass\<close>\<close>

definition instantiate_dataclass :: "DataclassWrapper \<Rightarrow> dict \<Rightarrow> error + dc_instance" where
  "instantiate_dataclass dw args_dict =
     (case constructor_args_loop args_dict (dw_fields dw) [] of
        Inl e \<Rightarrow> Inl e
      | Inr constructor_args \<Rightarrow> Inr (construct (dataclass dw) constructor_args))"

section \<open>Concrete declarations\<close>

text \<open>
  Inputs on which the definitions are evaluated below: an enumeration with three
  members, and a wrapper as \<^verbatim>\<open>FieldWrapper(field, cls)\<close> leaves it (cache object at
  reference 0), with \<^verbatim>\<open>multiple\<close> set as given.
\<close>

definition Color :: ftype where
  "Color = TEnum ''Color'' [''RED'', ''GREEN'', ''BLUE'']"

definition wrapper_of :: "dc_field \<Rightarrow> bool \<Rightarrow> FieldWrapper" where
  "wrapper_of f m =
     \<lparr>field = f, name_prefix = [], fw_arg_options = 0, fw_docstring = None,
      fw_multiple = m, fw_required = None\<rparr>"

text \<open>The default factory \<^verbatim>\<open>lambda: True\<close>.\<close>

definition true_factory :: "unit \<Rightarrow> pyval" where
  "true_factory u = VBool True"

text \<open>
  A dataclass with a required integer, an enumeration with a default and a boolean with
  a default, and its wrapper as \<^verbatim>\<open>DataclassWrapper(Config, prefix)\<close> builds it on an
  empty store (no attribute docstrings).
\<close>

definition Config :: dataclass_t where
  "Config =
     \<lparr>dc_name = ''Config'',
      dc_fields =
        [\<lparr>f_name = ''n'', f_type = TInt, f_default = None, f_default_factory = None,
          f_init = True\<rparr>,
         \<lparr>f_name = ''c'', f_type = Color, f_default = Some (VEnum ''Color'' ''RED''),
          f_default_factory = None, f_init = True\<rparr>,
         \<lparr>f_name = ''flag'', f_type = TBool, f_default = Some (VBool False),
          f_default_factory = None, f_init = True\<rparr>]\<rparr>"

definition Config_wrapper :: "string \<Rightarrow> DataclassWrapper" where
  "Config_wrapper prefix = fst (DataclassWrapper_init Config (\<lambda>a. None) prefix [])"

text \<open>
  The same wrapper after \<^verbatim>\<open>wrapper.multiple = True\<close>, and the wrapper in multiple mode of
  a dataclass whose only field is a list of dataclasses.
\<close>

definition Config_multiple :: "string \<Rightarrow> DataclassWrapper" where
  "Config_multiple prefix =
     (let (dw, h) = DataclassWrapper_init Config (\<lambda>a. None) prefix []
      in fst (DataclassWrapper_multiple_setter True dw h))"

definition Group_multiple :: DataclassWrapper where
  "Group_multiple =
     (let (dw, h) =
            DataclassWrapper_init
              \<lparr>dc_name = ''Group'',
               dc_fields = [\<lparr>f_name = ''items'', f_type = TList (TDataclass ''Child''),
                            f_default = None, f_default_factory = None, f_init = True\<rparr>]\<rparr>
              (\<lambda>a. None) [] []
      in fst (DataclassWrapper_multiple_setter True dw h))"

section \<open>Entries of the derived specification, stage by stage\<close>

lemma base_options_lookup:
  "map_of (base_options fw) ''type'' = Some (VType (f_type (field fw)))"
  "map_of (base_options fw) ''default'' = None"
  "map_of (base_options fw) ''required'' = None"
  "map_of (base_options fw) ''nargs'' = None"
  "map_of (base_options fw) ''choices'' = None"
  by (simp_all add: base_options_def Let_def split: option.splits)

lemma default_options_required:
  "map_of (default_options fw d) ''required'' =
     (if f_default (field fw) = None \<and> f_default_factory (field fw) = None
      then Some (VBool True) else map_of d ''required'')"
  by (simp add: default_options_def update_conv' split: option.splits)

lemma default_options_default:
  "map_of (default_options fw d) ''default'' =
     (case f_default (field fw) of
        Some v \<Rightarrow> Some v
      | None \<Rightarrow> (case f_default_factory (field fw) of
                   Some factory \<Rightarrow> Some (factory ())
                 | None \<Rightarrow> map_of d ''default''))"
  by (simp add: default_options_def update_conv' split: option.splits)

lemma default_options_other:
  "k \<noteq> ''default'' \<Longrightarrow> k \<noteq> ''required'' \<Longrightarrow> map_of (default_options fw d) k = map_of d k"
  by (simp add: default_options_def update_conv' split: option.splits)

lemma enum_options_default:
  "map_of (enum_options fw d) ''default'' =
     (case map_of d ''default'' of
        None \<Rightarrow> None
      | Some (VEnum e m) \<Rightarrow> Some (VStr m)
      | Some v \<Rightarrow> Some v)"
  by (cases "map_of d ''default''"; cases "the (map_of d ''default'')")
     (simp_all add: enum_options_def Let_def update_conv')

lemma enum_options_choices:
  "map_of (enum_options fw d) ''choices'' = Some (VList (map VStr (member_names (f_type (field fw)))))"
  by (cases "map_of d ''default''"; cases "the (map_of d ''default'')")
     (simp_all add: enum_options_def Let_def update_conv')

lemma enum_options_type:
  "map_of (enum_options fw d) ''type'' = Some (VType TStr)"
  by (cases "map_of d ''default''"; cases "the (map_of d ''default'')")
     (simp_all add: enum_options_def Let_def update_conv')

lemma enum_options_other:
  "k \<noteq> ''default'' \<Longrightarrow> k \<noteq> ''choices'' \<Longrightarrow> k \<noteq> ''type'' \<Longrightarrow>
   map_of (enum_options fw d) k = map_of d k"
  by (cases "map_of d ''default''"; cases "the (map_of d ''default'')")
     (simp_all add: enum_options_def Let_def update_conv')

lemma container_options_other:
  "k \<noteq> ''nargs'' \<Longrightarrow> k \<noteq> ''type'' \<Longrightarrow> map_of (container_options fw d) k = map_of d k"
  by (simp add: container_options_def Let_def update_conv')

lemma bool_options_default:
  "map_of (bool_options fw d) ''default'' =
     Some (case f_default (field fw) of None \<Rightarrow> VBool False | Some v \<Rightarrow> v)"
  by (simp add: bool_options_def Let_def update_conv')

lemma bool_options_required:
  "map_of (bool_options fw d) ''required'' =
     (if f_default (field fw) = None then Some (VBool True) else map_of d ''required'')"
  by (simp add: bool_options_def Let_def update_conv')


lemma category_options_required:
  "map_of (category_options fw) ''required'' =
     (if f_default (field fw) = None \<and>
         (f_default_factory (field fw) = None \<or> f_type (field fw) = TBool)
      then Some (VBool True) else None)"
proof (cases "is_enum (f_type (field fw))")
  case True
  then show ?thesis
    by (cases "f_type (field fw)")
       (simp_all add: category_options_def Let_def enum_options_other default_options_required
          base_options_lookup)
next
  case ne: False
  show ?thesis
  proof (cases "is_tuple_or_list (f_type (field fw))")
    case True
    with ne show ?thesis
      by (cases "f_type (field fw)")
         (simp_all add: category_options_def Let_def container_options_other
            default_options_required base_options_lookup is_tuple_or_list_def)
  next
    case False
    with ne show ?thesis
      by (simp add: category_options_def Let_def bool_options_required
            default_options_required base_options_lookup)
  qed
qed

lemma category_options_default:
  "map_of (category_options fw) ''default'' =
     (let d0 = (case f_default (field fw) of
                  Some v \<Rightarrow> Some v
                | None \<Rightarrow> map_option (\<lambda>factory. factory ()) (f_default_factory (field fw)))
      in if is_enum (f_type (field fw)) then
           (case d0 of None \<Rightarrow> None | Some (VEnum e m) \<Rightarrow> Some (VStr m) | Some v \<Rightarrow> Some v)
         else if f_type (field fw) = TBool then
           Some (case f_default (field fw) of None \<Rightarrow> VBool False | Some v \<Rightarrow> v)
         else d0)"
proof -
  have d: "map_of (default_options fw (base_options fw)) ''default'' =
      (case f_default (field fw) of
         Some v \<Rightarrow> Some v
       | None \<Rightarrow> map_option (\<lambda>factory. factory ()) (f_default_factory (field fw)))"
    by (simp add: default_options_default base_options_lookup split: option.splits)
  show ?thesis
  proof (cases "is_enum (f_type (field fw))")
    case True
    then show ?thesis
      by (simp add: category_options_def Let_def enum_options_default d)
  next
    case ne: False
    show ?thesis
    proof (cases "is_tuple_or_list (f_type (field fw))")
      case True
      with ne show ?thesis
        by (cases "f_type (field fw)")
           (simp_all add: category_options_def Let_def container_options_other d
              is_tuple_or_list_def)
    next
      case False
      with ne show ?thesis
        by (simp add: category_options_def Let_def bool_options_default d)
    qed
  qed
qed


lemma category_options_choices:
  "is_enum (f_type (field fw)) \<Longrightarrow>
   map_of (category_options fw) ''choices'' =
     Some (VList (map VStr (member_names (f_type (field fw)))))"
  by (simp add: category_options_def Let_def enum_options_choices)

lemma category_options_type_enum:
  "is_enum (f_type (field fw)) \<Longrightarrow> map_of (category_options fw) ''type'' = Some (VType TStr)"
  by (simp add: category_options_def Let_def enum_options_type)

lemma multiple_options_required:
  "map_of d ''required'' = Some (VBool True) \<Longrightarrow>
   multiple_options d = Inr (AList.update ''nargs'' (VStr ''+'') d)"
  by (simp add: multiple_options_def)

lemma multiple_options_default:
  "map_of d ''required'' = None \<Longrightarrow> map_of d ''default'' = Some v \<Longrightarrow>
   multiple_options d =
     Inr (AList.update ''default'' (VList [v]) (AList.update ''nargs'' (VStr ''*'') d))"
  by (simp add: multiple_options_def update_conv')

lemma get_arg_options_exposed:
  "f_init (field fw) \<Longrightarrow> \<not> is_dataclass fw \<Longrightarrow> \<not> is_tuple_or_list_of_dataclasses fw \<Longrightarrow>
   get_arg_options fw =
     (if FieldWrapper_multiple fw then multiple_options (category_options fw)
      else Inr (category_options fw))"
  by (simp add: get_arg_options_def Let_def)

lemma category_options_default_if_optional:
  "map_of (category_options fw) ''required'' = None \<Longrightarrow>
   \<exists>d. map_of (category_options fw) ''default'' = Some d"
  by (cases "f_default (field fw)"; cases "f_default_factory (field fw)";
      cases "is_enum (f_type (field fw))")
     (auto simp: category_options_required category_options_default Let_def
        split: if_splits option.splits pyval.splits)

section \<open>Properties of the derivation\<close>

text \<open>
  Claim C6. A field that does not take part in construction, a field whose type is a
  dataclass, and a field whose type is a list or tuple of dataclasses all get the empty
  specification, whatever \<^verbatim>\<open>multiple\<close>, the defaults and the help text are.
\<close>

theorem delegated_fields_have_empty_specification:
  "\<not> f_init (field fw) \<or> is_dataclass fw \<or> is_tuple_or_list_of_dataclasses fw \<Longrightarrow>
   get_arg_options fw = Inr []"
  by (auto simp: get_arg_options_def Let_def)

theorem delegated_fields_have_empty_specification_witness:
  "is_dataclass
     (wrapper_of \<lparr>f_name = ''child'', f_type = TDataclass ''Child'', f_default = Some VNone,
                  f_default_factory = None, f_init = True\<rparr> True)
   \<and> get_arg_options
       (wrapper_of \<lparr>f_name = ''child'', f_type = TDataclass ''Child'', f_default = Some VNone,
                    f_default_factory = None, f_init = True\<rparr> True) = Inr []"
  using delegated_fields_have_empty_specification
    [of "wrapper_of \<lparr>f_name = ''child'', f_type = TDataclass ''Child'', f_default = Some VNone,
                     f_default_factory = None, f_init = True\<rparr> True"]
  by (simp add: is_dataclass_def wrapper_of_def)

lemmas eval_defs = wrapper_of_def get_arg_options_def category_options_def base_options_def
  default_options_def enum_options_def container_options_def bool_options_def
  multiple_options_def is_dataclass_def is_tuple_or_list_of_dataclasses_def
  is_tuple_or_list_def FieldWrapper_multiple_def Color_def

text \<open>
  Claim C4. In multiple mode the last step of the derivation works on the specification
  as the category branches left it, whatever the branch was: when that specification
  has \<^verbatim>\<open>required\<close> true, \<^verbatim>\<open>nargs\<close> becomes \<^verbatim>\<open>"+"\<close>; otherwise \<^verbatim>\<open>nargs\<close> becomes \<^verbatim>\<open>"*"\<close>
  and \<^verbatim>\<open>default\<close> becomes the one-element list holding the previous default, which
  always exists in that case (the step raises no \<^verbatim>\<open>KeyError\<close>). For a field that passed
  the three early returns, the result of that step is the derived specification.
\<close>

theorem multiple_mode_nargs_finalization:
  "\<exists>spec. multiple_options (category_options fw) = Inr spec
     \<and> map_of spec ''required'' = map_of (category_options fw) ''required''
     \<and> (if map_of spec ''required'' = Some (VBool True)
        then map_of spec ''nargs'' = Some (VStr ''+'')
        else map_of spec ''nargs'' = Some (VStr ''*'')
             \<and> (\<exists>d. map_of (category_options fw) ''default'' = Some d
                    \<and> map_of spec ''default'' = Some (VList [d])))
     \<and> (FieldWrapper_multiple fw \<and> f_init (field fw) \<and> \<not> is_dataclass fw
          \<and> \<not> is_tuple_or_list_of_dataclasses fw
        \<longrightarrow> get_arg_options fw = Inr spec)"
proof (cases "map_of (category_options fw) ''required''")
  case None
  then obtain d where d: "map_of (category_options fw) ''default'' = Some d"
    using category_options_default_if_optional by blast
  show ?thesis
    using None d
    by (simp add: multiple_options_default [OF None d] update_conv' get_arg_options_exposed)
next
  case (Some r)
  then have r: "map_of (category_options fw) ''required'' = Some (VBool True)"
    by (simp add: category_options_required split: if_splits)
  show ?thesis
    using r
    by (simp add: multiple_options_required [OF r] update_conv' get_arg_options_exposed)
qed

theorem multiple_mode_nargs_finalization_witness:
  "get_arg_options
     (wrapper_of \<lparr>f_name = ''n'', f_type = TInt, f_default = Some (VInt 5),
                  f_default_factory = None, f_init = True\<rparr> True)
   = Inr [(''type'', VType TInt), (''default'', VList [VInt 5]), (''nargs'', VStr ''*'')]
   \<and> get_arg_options
     (wrapper_of \<lparr>f_name = ''n'', f_type = TInt, f_default = None,
                  f_default_factory = None, f_init = True\<rparr> True)
   = Inr [(''type'', VType TInt), (''required'', VBool True), (''nargs'', VStr ''+'')]"
  using multiple_mode_nargs_finalization
    [of "wrapper_of \<lparr>f_name = ''n'', f_type = TInt, f_default = Some (VInt 5),
                  f_default_factory = None, f_init = True\<rparr> True"]
   multiple_mode_nargs_finalization
    [of "wrapper_of \<lparr>f_name = ''n'', f_type = TInt, f_default = None,
                  f_default_factory = None, f_init = True\<rparr> True"]
  by (simp add: wrapper_of_def get_arg_options_def category_options_def base_options_def
        default_options_def multiple_options_def is_dataclass_def
        is_tuple_or_list_of_dataclasses_def is_tuple_or_list_def FieldWrapper_multiple_def)

text \<open>
  Claim C2, as amended. For a field that takes part in construction and is neither a
  dataclass nor a list or tuple of dataclasses: with a declared value default,
  \<^verbatim>\<open>required\<close> is absent and \<^verbatim>\<open>default\<close> is that value, except that an enumeration
  field's enum-member default is replaced by the member's name and that multiple mode
  wraps the entry in a one-element list; with no value default but a default factory,
  on a field that is not boolean, \<^verbatim>\<open>required\<close> is absent and \<^verbatim>\<open>default\<close> is the factory's
  result under the same two adjustments; with neither a value default nor a default
  factory, \<^verbatim>\<open>required\<close> is true.
\<close>

theorem default_or_required_entries:
  assumes "f_init (field fw)" "\<not> is_dataclass fw" "\<not> is_tuple_or_list_of_dataclasses fw"
  shows "\<exists>spec. get_arg_options fw = Inr spec \<and>
     (let adjust = (\<lambda>v. let v' = (case v of
                                     VEnum e m \<Rightarrow> if is_enum (f_type (field fw)) then VStr m else v
                                   | _ \<Rightarrow> v)
                         in if FieldWrapper_multiple fw then VList [v'] else v')
      in case f_default (field fw) of
           Some v \<Rightarrow> map_of spec ''required'' = None \<and> map_of spec ''default'' = Some (adjust v)
         | None \<Rightarrow>
             (case f_default_factory (field fw) of
                Some factory \<Rightarrow>
                  f_type (field fw) \<noteq> TBool \<longrightarrow>
                    map_of spec ''required'' = None
                    \<and> map_of spec ''default'' = Some (adjust (factory ()))
              | None \<Rightarrow> map_of spec ''required'' = Some (VBool True)))"
proof (cases "map_of (category_options fw) ''required''")
  case None
  then obtain d where d: "map_of (category_options fw) ''default'' = Some d"
    using category_options_default_if_optional by blast
  have spec: "get_arg_options fw =
      (if FieldWrapper_multiple fw
       then Inr (AList.update ''default'' (VList [d])
                  (AList.update ''nargs'' (VStr ''*'') (category_options fw)))
       else Inr (category_options fw))"
    using assms by (simp add: get_arg_options_exposed multiple_options_default [OF None d])
  show ?thesis
    using None d
    by (cases "is_enum (f_type (field fw))")
       (auto simp: spec update_conv' Let_def category_options_required category_options_default
          split: option.splits if_splits pyval.splits)
next
  case (Some r)
  then have r: "map_of (category_options fw) ''required'' = Some (VBool True)"
    by (simp add: category_options_required split: if_splits)
  have spec: "get_arg_options fw =
      (if FieldWrapper_multiple fw
       then Inr (AList.update ''nargs'' (VStr ''+'') (category_options fw))
       else Inr (category_options fw))"
    using assms by (simp add: get_arg_options_exposed multiple_options_required [OF r])
  show ?thesis
    using r
    by (auto simp: spec update_conv' Let_def category_options_required
          split: option.splits if_splits)
qed

theorem default_or_required_entries_witness:
  "f_init (field (wrapper_of \<lparr>f_name = ''xs'', f_type = TList TInt, f_default = None,
                    f_default_factory = Some (\<lambda>u. VList [VInt 1, VInt 2]), f_init = True\<rparr> False))
   \<and> \<not> is_dataclass (wrapper_of \<lparr>f_name = ''xs'', f_type = TList TInt, f_default = None,
                    f_default_factory = Some (\<lambda>u. VList [VInt 1, VInt 2]), f_init = True\<rparr> False)
   \<and> \<not> is_tuple_or_list_of_dataclasses (wrapper_of \<lparr>f_name = ''xs'', f_type = TList TInt,
                    f_default = None,
                    f_default_factory = Some (\<lambda>u. VList [VInt 1, VInt 2]), f_init = True\<rparr> False)
   \<and> (\<exists>spec. get_arg_options (wrapper_of \<lparr>f_name = ''xs'', f_type = TList TInt,
                    f_default = None,
                    f_default_factory = Some (\<lambda>u. VList [VInt 1, VInt 2]), f_init = True\<rparr> False)
                = Inr spec
              \<and> map_of spec ''required'' = None
              \<and> map_of spec ''default'' = Some (VList [VInt 1, VInt 2]))"
  using default_or_required_entries
    [of "wrapper_of \<lparr>f_name = ''xs'', f_type = TList TInt, f_default = None,
                    f_default_factory = Some (\<lambda>u. VList [VInt 1, VInt 2]), f_init = True\<rparr> False"]
  by (simp add: wrapper_of_def is_dataclass_def is_tuple_or_list_of_dataclasses_def
        FieldWrapper_multiple_def)

text \<open>
  The claim as stated fails: in multiple mode the \<^verbatim>\<open>default\<close> entry of an integer field
  declared with default 5 is the list \<^verbatim>\<open>[5]\<close>; the \<^verbatim>\<open>default\<close> entry of an enumeration
  field declared with default \<^verbatim>\<open>Color.RED\<close> is the string \<^verbatim>\<open>"RED"\<close>; and a boolean field
  declared with the default factory \<^verbatim>\<open>lambda: True\<close> alone gets the \<^verbatim>\<open>default\<close> entry
  \<^verbatim>\<open>False\<close>, not the factory's result.
\<close>

theorem default_entry_counterexample:
  "get_arg_options
     (wrapper_of \<lparr>f_name = ''n'', f_type = TInt, f_default = Some (VInt 5),
                  f_default_factory = None, f_init = True\<rparr> True)
   = Inr [(''type'', VType TInt), (''default'', VList [VInt 5]), (''nargs'', VStr ''*'')]
   \<and> VList [VInt 5] \<noteq> VInt 5
   \<and> get_arg_options
     (wrapper_of \<lparr>f_name = ''c'', f_type = Color, f_default = Some (VEnum ''Color'' ''RED''),
                  f_default_factory = None, f_init = True\<rparr> False)
   = Inr [(''type'', VType TStr), (''default'', VStr ''RED''),
          (''choices'', VList [VStr ''RED'', VStr ''GREEN'', VStr ''BLUE''])]
   \<and> VStr ''RED'' \<noteq> VEnum ''Color'' ''RED''
   \<and> get_arg_options
     (wrapper_of \<lparr>f_name = ''flag'', f_type = TBool, f_default = None,
                  f_default_factory = Some true_factory, f_init = True\<rparr> False)
   = Inr [(''type'', VCallable Str2Bool), (''default'', VBool False), (''nargs'', VStr ''?''),
          (''required'', VBool True)]
   \<and> VBool False \<noteq> true_factory ()"
  by (simp add: eval_defs true_factory_def)

text \<open>
  Claim C3, as amended. For an enumeration field that takes part in construction,
  \<^verbatim>\<open>choices\<close> is the ordered list of the member names, \<^verbatim>\<open>type\<close> is \<^verbatim>\<open>str\<close>, and when the
  default (declared, or produced by the factory) is an enum member, \<^verbatim>\<open>default\<close> is that
  member's name, wrapped in a one-element list in multiple mode.
\<close>

theorem enumeration_field_specification:
  assumes "f_init (field fw)" "f_type (field fw) = TEnum e ms"
  shows "\<exists>spec. get_arg_options fw = Inr spec
     \<and> map_of spec ''choices'' = Some (VList (map VStr ms))
     \<and> map_of spec ''type'' = Some (VType TStr)
     \<and> (\<forall>e' m. (case f_default (field fw) of
                    Some v \<Rightarrow> Some v
                  | None \<Rightarrow> map_option (\<lambda>factory. factory ()) (f_default_factory (field fw)))
                = Some (VEnum e' m)
              \<longrightarrow> map_of spec ''default''
                    = Some (if FieldWrapper_multiple fw then VList [VStr m] else VStr m))"
proof -
  have exposed: "\<not> is_dataclass fw" "\<not> is_tuple_or_list_of_dataclasses fw"
    using assms by (simp_all add: is_dataclass_def is_tuple_or_list_of_dataclasses_def)
  have enum: "is_enum (f_type (field fw))" "member_names (f_type (field fw)) = ms"
    using assms by simp_all
  note cat = category_options_choices [OF enum(1)] category_options_type_enum [OF enum(1)]
  show ?thesis
  proof (cases "map_of (category_options fw) ''required''")
    case None
    then obtain d where d: "map_of (category_options fw) ''default'' = Some d"
      using category_options_default_if_optional by blast
    have spec: "get_arg_options fw =
        (if FieldWrapper_multiple fw
         then Inr (AList.update ''default'' (VList [d])
                    (AList.update ''nargs'' (VStr ''*'') (category_options fw)))
         else Inr (category_options fw))"
      using assms exposed by (simp add: get_arg_options_exposed multiple_options_default [OF None d])
    show ?thesis
      using d enum cat
      by (auto simp: spec update_conv' Let_def category_options_default
            split: option.splits if_splits)
  next
    case (Some r)
    then have r: "map_of (category_options fw) ''required'' = Some (VBool True)"
      by (simp add: category_options_required split: if_splits)
    have spec: "get_arg_options fw =
        (if FieldWrapper_multiple fw
         then Inr (AList.update ''nargs'' (VStr ''+'') (category_options fw))
         else Inr (category_options fw))"
      using assms exposed by (simp add: get_arg_options_exposed multiple_options_required [OF r])
    show ?thesis
      using r enum cat
      by (auto simp: spec update_conv' Let_def category_options_required
            split: option.splits if_splits)
  qed
qed

theorem enumeration_field_specification_witness:
  "f_init (field (wrapper_of \<lparr>f_name = ''c'', f_type = Color,
                    f_default = Some (VEnum ''Color'' ''GREEN''), f_default_factory = None,
                    f_init = True\<rparr> True))
   \<and> (\<exists>spec. get_arg_options (wrapper_of \<lparr>f_name = ''c'', f_type = Color,
                    f_default = Some (VEnum ''Color'' ''GREEN''), f_default_factory = None,
                    f_init = True\<rparr> True) = Inr spec
         \<and> map_of spec ''choices'' = Some (VList [VStr ''RED'', VStr ''GREEN'', VStr ''BLUE''])
         \<and> map_of spec ''type'' = Some (VType TStr)
         \<and> map_of spec ''default'' = Some (VList [VStr ''GREEN'']))"
  using enumeration_field_specification
    [of "wrapper_of \<lparr>f_name = ''c'', f_type = Color,
                    f_default = Some (VEnum ''Color'' ''GREEN''), f_default_factory = None,
                    f_init = True\<rparr> True" "''Color''" "[''RED'', ''GREEN'', ''BLUE'']"]
  by (simp add: wrapper_of_def Color_def FieldWrapper_multiple_def)

text \<open>
  The claim as stated fails: in multiple mode the \<^verbatim>\<open>default\<close> entry for the default
  \<^verbatim>\<open>Color.BLUE\<close> is the list \<^verbatim>\<open>["BLUE"]\<close>, not the name; and an enumeration field with
  \<^verbatim>\<open>init=False\<close> has the empty specification, without \<^verbatim>\<open>choices\<close>.
\<close>

theorem enumeration_default_counterexample:
  "get_arg_options
     (wrapper_of \<lparr>f_name = ''c'', f_type = Color, f_default = Some (VEnum ''Color'' ''BLUE''),
                  f_default_factory = None, f_init = True\<rparr> True)
   = Inr [(''type'', VType TStr), (''default'', VList [VStr ''BLUE'']),
          (''choices'', VList [VStr ''RED'', VStr ''GREEN'', VStr ''BLUE'']),
          (''nargs'', VStr ''*'')]
   \<and> VList [VStr ''BLUE''] \<noteq> VStr ''BLUE''
   \<and> get_arg_options
     (wrapper_of \<lparr>f_name = ''c'', f_type = Color, f_default = Some (VEnum ''Color'' ''BLUE''),
                  f_default_factory = None, f_init = False\<rparr> False)
   = Inr []
   \<and> map_of ([] :: dict) ''choices'' = None"
  by (simp add: eval_defs)

section \<open>The cache of the specification and the required override\<close>











lemma set_multiple_fields_required:
  "map fw_required (fst (set_multiple_fields v fws h)) = map fw_required fws"
  by (induction fws arbitrary: h)
     (simp_all add: FieldWrapper_multiple_setter_def Let_def split_beta)

lemma set_multiple_fields_length:
  "length (fst (set_multiple_fields v fws h)) = length fws"
  by (induction fws arbitrary: h) (simp_all add: Let_def split_beta)

lemma required_of_override: "fw_required fw = Some v \<Longrightarrow> FieldWrapper_required fw = v"
  by (simp add: FieldWrapper_required_def)

lemma arg_options_keeps_required:
  "FieldWrapper_arg_options fw h = Inr (r, fw', h') \<Longrightarrow> fw_required fw' = fw_required fw"
  by (auto simp: FieldWrapper_arg_options_def new_dict_def split: if_splits sum.splits)

lemma all_required_map:
  "(\<forall>fw \<in> set fws. fw_required fw = Some v) \<longleftrightarrow> map fw_required fws = replicate (length fws) (Some v)"
  by (induction fws) auto

lemma dw_multiple_setter_required:
  assumes "\<forall>fw \<in> set (dw_fields dw). fw_required fw = Some v"
  shows "\<forall>fw \<in> set (dw_fields (fst (DataclassWrapper_multiple_setter m dw h))). fw_required fw = Some v"
proof -
  have "map fw_required (dw_fields (fst (DataclassWrapper_multiple_setter m dw h)))
        = map fw_required (dw_fields dw)"
    using set_multiple_fields_required [of m "dw_fields dw" h]
    by (simp add: DataclassWrapper_multiple_setter_def split_beta Let_def)
  moreover have "length (dw_fields (fst (DataclassWrapper_multiple_setter m dw h)))
        = length (dw_fields dw)"
    using set_multiple_fields_length [of m "dw_fields dw" h]
    by (simp add: DataclassWrapper_multiple_setter_def split_beta Let_def)
  ultimately show ?thesis
    using assms by (simp add: all_required_map)
qed

lemma Config_wrapper_fields:
  "dw_fields (Config_wrapper p) =
     [\<lparr>field = \<lparr>f_name = ''n'', f_type = TInt, f_default = None, f_default_factory = None,
          f_init = True\<rparr>, name_prefix = p, fw_arg_options = 0, fw_docstring = None,
          fw_multiple = False, fw_required = None\<rparr>,
      \<lparr>field = \<lparr>f_name = ''c'', f_type = Color, f_default = Some (VEnum ''Color'' ''RED''),
          f_default_factory = None, f_init = True\<rparr>, name_prefix = p, fw_arg_options = 1,
          fw_docstring = None, fw_multiple = False, fw_required = None\<rparr>,
      \<lparr>field = \<lparr>f_name = ''flag'', f_type = TBool, f_default = Some (VBool False),
          f_default_factory = None, f_init = True\<rparr>, name_prefix = p, fw_arg_options = 2,
          fw_docstring = None, fw_multiple = False, fw_required = None\<rparr>]"
  by (simp add: Config_wrapper_def DataclassWrapper_init_def Config_def FieldWrapper_init_def
        new_dict_def)

text \<open>
  Claim C8. Setting \<^verbatim>\<open>required\<close> on a field wrapper stores the override, and so does
  setting \<^verbatim>\<open>required\<close> on the dataclass wrapper for every field wrapper it owns. With an
  override stored, the \<^verbatim>\<open>required\<close> property returns it, whatever the declared default
  and default factory are; and every other operation of the two classes (the \<^verbatim>\<open>multiple\<close>
  setters, the assignment to \<^verbatim>\<open>name_prefix\<close>, the \<^verbatim>\<open>prefix\<close> setter, an access to
  \<^verbatim>\<open>arg_options\<close>) leaves the stored override as it is.
\<close>

theorem required_override_takes_precedence:
  "fw_required (FieldWrapper_required_setter v fw) = Some v
   \<and> FieldWrapper_required (FieldWrapper_required_setter v fw) = v
   \<and> DataclassWrapper_required (DataclassWrapper_required_setter v dw) = v
   \<and> (\<forall>w \<in> set (dw_fields (DataclassWrapper_required_setter v dw)).
         fw_required w = Some v \<and> FieldWrapper_required w = v)
   \<and> (fw_required fw = Some v \<longrightarrow>
         FieldWrapper_required fw = v
         \<and> fw_required (fst (FieldWrapper_multiple_setter m fw h)) = Some v
         \<and> fw_required (fw\<lparr>name_prefix := p\<rparr>) = Some v
         \<and> (\<forall>r fw' h'. FieldWrapper_arg_options fw h = Inr (r, fw', h')
               \<longrightarrow> fw_required fw' = Some v))
   \<and> ((\<forall>w \<in> set (dw_fields dw). fw_required w = Some v) \<longrightarrow>
         (\<forall>w \<in> set (dw_fields (DataclassWrapper_prefix_setter p dw)). fw_required w = Some v)
         \<and> (\<forall>w \<in> set (dw_fields (fst (DataclassWrapper_multiple_setter m dw h))).
               fw_required w = Some v))"
proof -
  have 1: "fw_required (FieldWrapper_required_setter v fw) = Some v"
    by (simp add: FieldWrapper_required_setter_def)
  have 2: "DataclassWrapper_required (DataclassWrapper_required_setter v dw) = v"
    by (simp add: DataclassWrapper_required_def DataclassWrapper_required_setter_def)
  have 3: "\<forall>w \<in> set (dw_fields (DataclassWrapper_required_setter v dw)).
         fw_required w = Some v \<and> FieldWrapper_required w = v"
    by (auto simp: DataclassWrapper_required_setter_def FieldWrapper_required_setter_def
          FieldWrapper_required_def)
  have 4: "fw_required fw = Some v \<longrightarrow>
         FieldWrapper_required fw = v
         \<and> fw_required (fst (FieldWrapper_multiple_setter m fw h)) = Some v
         \<and> fw_required (fw\<lparr>name_prefix := p\<rparr>) = Some v
         \<and> (\<forall>r fw' h'. FieldWrapper_arg_options fw h = Inr (r, fw', h')
               \<longrightarrow> fw_required fw' = Some v)"
    using arg_options_keeps_required [of fw h]
    by (auto simp: required_of_override FieldWrapper_multiple_setter_def Let_def)
  have 5: "(\<forall>w \<in> set (dw_fields dw). fw_required w = Some v) \<longrightarrow>
         (\<forall>w \<in> set (dw_fields (DataclassWrapper_prefix_setter p dw)). fw_required w = Some v)
         \<and> (\<forall>w \<in> set (dw_fields (fst (DataclassWrapper_multiple_setter m dw h))).
               fw_required w = Some v)"
    using dw_multiple_setter_required [of dw v m h]
    by (auto simp: DataclassWrapper_prefix_setter_def)
  show ?thesis
    using 1 2 3 4 5 required_of_override [OF 1] by blast
qed

theorem required_override_takes_precedence_witness:
  "FieldWrapper_required (dw_fields (Config_wrapper []) ! 1) = False
   \<and> FieldWrapper_required (FieldWrapper_required_setter True (dw_fields (Config_wrapper []) ! 1))
   \<and> fw_required (FieldWrapper_required_setter True (dw_fields (Config_wrapper []) ! 1))
       = Some True
   \<and> FieldWrapper_required
       (fst (FieldWrapper_multiple_setter True
               (FieldWrapper_required_setter True (dw_fields (Config_wrapper []) ! 1)) [[], [], []]))
   \<and> map FieldWrapper_required
         (dw_fields (DataclassWrapper_required_setter True (Config_wrapper [])))
       = [True, True, True]
   \<and> map fw_required
         (dw_fields (fst (DataclassWrapper_multiple_setter True
                       (DataclassWrapper_required_setter True (Config_wrapper [])) [[], [], []])))
       = [Some True, Some True, Some True]"
  using required_override_takes_precedence
    [of True "FieldWrapper_required_setter True (dw_fields (Config_wrapper []) ! 1)"
        "DataclassWrapper_required_setter True (Config_wrapper [])" True "[[], [], []]" "[]"]
  by (simp add: Config_wrapper_fields FieldWrapper_required_def FieldWrapper_required_setter_def
        DataclassWrapper_required_setter_def FieldWrapper_multiple_setter_def
        DataclassWrapper_multiple_setter_def)

section \<open>Extraction of the constructor arguments\<close>

lemma instance_arguments_loop_untouched:
  "instance_arguments_loop m n args i fws ia = Inr d \<Longrightarrow>
   k \<notin> (\<lambda>w. f_name (field w)) ` {w \<in> set fws. f_init (field w) \<and> \<not> is_dataclass w} \<Longrightarrow>
   map_of d k = map_of ia k"
proof (induction fws arbitrary: ia)
  case Nil
  then show ?case by simp
next
  case (Cons w fws)
  show ?case
  proof (cases "f_init (field w) \<and> \<not> is_dataclass w")
    case False
    with Cons.prems(1) have rest: "instance_arguments_loop m n args i fws ia = Inr d"
      by (auto simp: Let_def split: if_splits)
    have "k \<notin> (\<lambda>w. f_name (field w)) ` {w \<in> set fws. f_init (field w) \<and> \<not> is_dataclass w}"
      using Cons.prems(2) by auto
    from Cons.IH [OF rest this] show ?thesis .
  next
    case True
    with Cons.prems obtain v where v: "instance_argument m n args i w = Inr v"
      and rest: "instance_arguments_loop m n args i fws (AList.update (f_name (field w)) v ia) = Inr d"
      by (auto simp: Let_def split: sum.splits)
    have "map_of d k = map_of (AList.update (f_name (field w)) v ia) k"
      using Cons.IH [OF rest] Cons.prems(2) by auto
    also have "\<dots> = map_of ia k"
      using True Cons.prems(2) by (auto simp: update_conv')
    finally show ?thesis .
  qed
qed

lemma instance_arguments_loop_value:
  "instance_arguments_loop m n args i fws ia = Inr d \<Longrightarrow>
   distinct (map (\<lambda>w. f_name (field w)) fws) \<Longrightarrow>
   fw \<in> set fws \<Longrightarrow> f_init (field fw) \<Longrightarrow> \<not> is_dataclass fw \<Longrightarrow>
   \<exists>v. instance_argument m n args i fw = Inr v \<and> map_of d (f_name (field fw)) = Some v"
proof (induction fws arbitrary: ia)
  case Nil
  then show ?case by simp
next
  case (Cons w fws)
  show ?case
  proof (cases "fw = w")
    case True
    with Cons.prems obtain v where v: "instance_argument m n args i w = Inr v"
      and rest: "instance_arguments_loop m n args i fws (AList.update (f_name (field w)) v ia) = Inr d"
      by (auto simp: Let_def split: sum.splits)
    have "f_name (field w) \<notin> (\<lambda>w. f_name (field w)) ` {w \<in> set fws. f_init (field w) \<and> \<not> is_dataclass w}"
      using Cons.prems(2) by auto
    from instance_arguments_loop_untouched [OF rest this]
    show ?thesis using v True by (simp add: update_conv')
  next
    case False
    with Cons.prems have mem: "fw \<in> set fws" and dist: "distinct (map (\<lambda>w. f_name (field w)) fws)"
      by auto
    from Cons.prems(1) obtain ia' where "instance_arguments_loop m n args i fws ia' = Inr d"
      by (auto simp: Let_def split: sum.splits if_splits)
    from Cons.IH [OF this dist mem Cons.prems(4) Cons.prems(5)] show ?thesis .
  qed
qed

lemma instance_arguments_loop_keys:
  "instance_arguments_loop m n args i fws ia = Inr d \<Longrightarrow>
   distinct (map fst ia @ map (\<lambda>w. f_name (field w)) fws) \<Longrightarrow>
   map fst d = map fst ia
     @ map (\<lambda>w. f_name (field w)) (filter (\<lambda>w. f_init (field w) \<and> \<not> is_dataclass w) fws)"
proof (induction fws arbitrary: ia)
  case Nil
  then show ?case by simp
next
  case (Cons w fws)
  show ?case
  proof (cases "f_init (field w) \<and> \<not> is_dataclass w")
    case False
    with Cons.prems(1) have rest: "instance_arguments_loop m n args i fws ia = Inr d"
      by (auto simp: Let_def split: if_splits)
    have "distinct (map fst ia @ map (\<lambda>w. f_name (field w)) fws)"
      using Cons.prems(2) by auto
    from Cons.IH [OF rest this] show ?thesis
      using False by auto
  next
    case True
    with Cons.prems obtain v where v: "instance_argument m n args i w = Inr v"
      and rest: "instance_arguments_loop m n args i fws (AList.update (f_name (field w)) v ia) = Inr d"
      by (auto simp: Let_def split: sum.splits)
    have keys: "map fst (AList.update (f_name (field w)) v ia) = map fst ia @ [f_name (field w)]"
      using Cons.prems(2) by (auto simp: update_keys)
    have "distinct (map fst (AList.update (f_name (field w)) v ia) @ map (\<lambda>w. f_name (field w)) fws)"
      using Cons.prems(2) by (auto simp: keys)
    from Cons.IH [OF rest this] show ?thesis
      using True by (simp add: keys)
  qed
qed

lemma instance_arguments_loop_fails:
  "fw \<in> set fws \<Longrightarrow> f_init (field fw) \<Longrightarrow> \<not> is_dataclass fw \<Longrightarrow>
   instance_argument m n args i fw = Inl e \<Longrightarrow>
   \<exists>e'. instance_arguments_loop m n args i fws ia = Inl e'"
proof (induction fws arbitrary: ia)
  case Nil
  then show ?case by simp
next
  case (Cons w fws)
  show ?case
  proof (cases "fw = w")
    case True
    with Cons.prems show ?thesis by (simp add: Let_def)
  next
    case False
    with Cons.prems have "\<And>ia. \<exists>e'. instance_arguments_loop m n args i fws ia = Inl e'"
      using Cons.IH by auto
    then show ?thesis
      by (auto simp: Let_def split: sum.splits)
  qed
qed

lemma instance_arguments_loop_first_failure:
  "\<forall>w \<in> set pre. f_init (field w) \<and> \<not> is_dataclass w \<longrightarrow>
       (\<exists>v. instance_argument m n args i w = Inr v) \<Longrightarrow>
   f_init (field fw) \<Longrightarrow> \<not> is_dataclass fw \<Longrightarrow>
   instance_argument m n args i fw = Inl e \<Longrightarrow>
   instance_arguments_loop m n args i (pre @ fw # post) ia = Inl e"
  by (induction pre arbitrary: ia) (auto simp: Let_def split: sum.splits)

lemma instance_arguments_loop_total:
  "\<forall>w \<in> set fws. f_init (field w) \<and> \<not> is_dataclass w \<longrightarrow>
       (\<exists>v. instance_argument m n args i w = Inr v) \<Longrightarrow>
   \<exists>d. instance_arguments_loop m n args i fws ia = Inr d"
  by (induction fws arbitrary: ia) (auto simp: Let_def split: sum.splits)


lemma constructor_arguments_loop_success:
  "constructor_arguments_loop m n args fws is acc = Inr ds \<Longrightarrow>
   length ds = length acc + length is
   \<and> (\<forall>k < length is.
         instance_arguments_loop m n args (is ! k) fws [] = Inr (ds ! (length acc + k)))
   \<and> take (length acc) ds = acc"
proof (induction "is" arbitrary: acc)
  case Nil
  then show ?case by simp
next
  case (Cons i "is")
  from Cons.prems obtain d where d: "instance_arguments_loop m n args i fws [] = Inr d"
    and rest: "constructor_arguments_loop m n args fws is (acc @ [d]) = Inr ds"
    by (auto split: sum.splits)
  from Cons.IH [OF rest] have len: "length ds = length acc + 1 + length is"
    and later: "\<forall>k < length is.
         instance_arguments_loop m n args (is ! k) fws [] = Inr (ds ! (length acc + 1 + k))"
    and tk: "take (length acc + 1) ds = acc @ [d]"
    by simp_all
  have "ds ! length acc = take (length acc + 1) ds ! length acc"
    by simp
  with tk have here: "ds ! length acc = d"
    by simp
  have "take (length acc) ds = take (length acc) (take (length acc + 1) ds)"
    by (simp add: min_def)
  with tk have tk': "take (length acc) ds = acc"
    by simp
  have "\<forall>k < length (i # is).
         instance_arguments_loop m n args ((i # is) ! k) fws [] = Inr (ds ! (length acc + k))"
  proof (intro allI impI)
    fix k assume "k < length (i # is)"
    then show "instance_arguments_loop m n args ((i # is) ! k) fws [] = Inr (ds ! (length acc + k))"
      using d here later by (cases k) auto
  qed
  then show ?case using len tk' by simp
qed

lemma constructor_arguments_loop_first_failure:
  "instance_arguments_loop m n args i fws [] = Inl e \<Longrightarrow>
   constructor_arguments_loop m n args fws (i # is) acc = Inl e"
  by simp

lemma constructor_arguments_loop_total:
  "\<forall>i \<in> set is. \<exists>d. instance_arguments_loop m n args i fws [] = Inr d \<Longrightarrow>
   \<exists>ds. constructor_arguments_loop m n args fws is acc = Inr ds"
  by (induction "is" arbitrary: acc) (auto split: sum.splits)

lemma get_constructor_arguments_success:
  assumes "get_constructor_arguments dw args n = Inr ds"
  shows "(if DataclassWrapper_multiple dw then n > 1 else n = 1)
     \<and> length ds = nat n
     \<and> (\<forall>i < nat n.
           instance_arguments_loop (DataclassWrapper_multiple dw) n args i (dw_fields dw) []
             = Inr (ds ! i))"
proof -
  from assms have ok: "if DataclassWrapper_multiple dw then n > 1 else n = 1"
    and loop: "constructor_arguments_loop (DataclassWrapper_multiple dw) n args (dw_fields dw)
                 [0 ..< nat n] [] = Inr ds"
    by (auto simp: get_constructor_arguments_def split: if_splits)
  from constructor_arguments_loop_success [OF loop] ok show ?thesis by simp
qed

lemma get_constructor_arguments_first_failure:
  assumes "if DataclassWrapper_multiple dw then n > 1 else n = 1"
    and "instance_arguments_loop (DataclassWrapper_multiple dw) n args 0 (dw_fields dw) [] = Inl e"
  shows "get_constructor_arguments dw args n = Inl e"
proof -
  from assms(1) have "0 < nat n" by (auto split: if_splits)
  then have "[0 ..< nat n] = 0 # [Suc 0 ..< nat n]" by (simp add: upt_conv_Cons)
  with assms show ?thesis
    by (auto simp: get_constructor_arguments_def split: if_splits)
qed

lemma get_constructor_arguments_fails:
  assumes "\<exists>e. instance_arguments_loop (DataclassWrapper_multiple dw) n args 0 (dw_fields dw) []
             = Inl e"
  shows "\<exists>e. get_constructor_arguments dw args n = Inl e"
proof (cases "if DataclassWrapper_multiple dw then n > 1 else n = 1")
  case True
  with assms get_constructor_arguments_first_failure show ?thesis by blast
next
  case False
  then show ?thesis by (auto simp: get_constructor_arguments_def split: if_splits)
qed

lemma get_constructor_arguments_total:
  assumes "if DataclassWrapper_multiple dw then n > 1 else n = 1"
    and "\<forall>i < nat n. \<exists>d.
           instance_arguments_loop (DataclassWrapper_multiple dw) n args i (dw_fields dw) []
             = Inr d"
  shows "\<exists>ds. get_constructor_arguments dw args n = Inr ds"
proof -
  have "\<exists>ds. constructor_arguments_loop (DataclassWrapper_multiple dw) n args (dw_fields dw)
                 [0 ..< nat n] [] = Inr ds"
    using assms(2) by (intro constructor_arguments_loop_total) auto
  with assms(1) show ?thesis
    by (auto simp: get_constructor_arguments_def split: if_splits)
qed

lemma instance_argument_list:
  "\<not> is_tuple_or_list_of_dataclasses fw \<Longrightarrow>
   map_of args (FieldWrapper_name fw) = Some (VList xs) \<Longrightarrow>
   instance_argument True n args i fw =
     (if length xs = 1 then Inr (xs ! 0)
      else if int (length xs) = n then Inr (xs ! i)
      else Inl (InconsistentArgumentError
                  (inconsistent_message (f_name (field fw)) (length xs) n)))"
  by (simp add: instance_argument_def)

lemma Config_multiple_fields:
  "dw_fields (Config_multiple p) =
     [\<lparr>field = \<lparr>f_name = ''n'', f_type = TInt, f_default = None, f_default_factory = None,
          f_init = True\<rparr>, name_prefix = p, fw_arg_options = 0, fw_docstring = None,
          fw_multiple = True, fw_required = None\<rparr>,
      \<lparr>field = \<lparr>f_name = ''c'', f_type = Color, f_default = Some (VEnum ''Color'' ''RED''),
          f_default_factory = None, f_init = True\<rparr>, name_prefix = p, fw_arg_options = 1,
          fw_docstring = None, fw_multiple = True, fw_required = None\<rparr>,
      \<lparr>field = \<lparr>f_name = ''flag'', f_type = TBool, f_default = Some (VBool False),
          f_default_factory = None, f_init = True\<rparr>, name_prefix = p, fw_arg_options = 2,
          fw_docstring = None, fw_multiple = True, fw_required = None\<rparr>]"
  "DataclassWrapper_multiple (Config_multiple p)"
  by (simp_all add: Config_multiple_def DataclassWrapper_init_def Config_def FieldWrapper_init_def
        new_dict_def DataclassWrapper_multiple_setter_def FieldWrapper_multiple_setter_def
        DataclassWrapper_multiple_def)


lemma str_nat_digits:
  "str_nat 2 = ''2''" "str_nat 3 = ''3''" "str_nat (Suc (Suc 0)) = ''2''"
  by code_simp+

lemma upt_3: "[0 ..< 3] = [0, 1, 2]" "[0 ..< 2] = [0, 1]" "[0 ..< 1] = [0]"
  by (simp_all add: upt_conv_Cons)

lemmas run_defs = get_constructor_arguments_def instance_argument_def FieldWrapper_name_def
  is_dataclass_def is_tuple_or_list_of_dataclasses_def Color_def inconsistent_message_def
  str_int_def upt_3 str_nat_digits

text \<open>
  Claim C1, as amended. In multiple mode with \<open>n > 1\<close> instances, take a field that
  takes part in construction and is neither a dataclass nor a list or tuple of
  dataclasses, whose raw value (under its prefixed name) is a list. If the list has
  length 1, every one of the \<open>n\<close> returned dictionaries holds its single element under
  the field's name; if it has length \<open>n\<close>, dictionary \<open>i\<close> holds element \<open>i\<close>; for any
  other length the call raises, and when no field declared before this one raises, what
  it raises is the \<^verbatim>\<open>InconsistentArgumentError\<close> whose message names the field, the length
  found, and the lengths 1 and \<open>n\<close>. The call does return when every such field has a
  list of length 1 or \<open>n\<close>. Field names are distinct, as in every dataclass.
\<close>

theorem multiple_mode_reconciliation:
  assumes multiple: "DataclassWrapper_multiple dw" and n: "n > 1"
    and names: "distinct (map (\<lambda>w. f_name (field w)) (dw_fields dw))"
    and fw: "fw \<in> set (dw_fields dw)" "f_init (field fw)" "\<not> is_dataclass fw"
            "\<not> is_tuple_or_list_of_dataclasses fw"
    and raw: "map_of args (FieldWrapper_name fw) = Some (VList xs)"
  shows "(length xs = 1 \<longrightarrow>
           (\<forall>ds. get_constructor_arguments dw args n = Inr ds \<longrightarrow>
              length ds = nat n
              \<and> (\<forall>i < nat n. map_of (ds ! i) (f_name (field fw)) = Some (xs ! 0))))
     \<and> (int (length xs) = n \<longrightarrow>
           (\<forall>ds. get_constructor_arguments dw args n = Inr ds \<longrightarrow>
              length ds = nat n
              \<and> (\<forall>i < nat n. map_of (ds ! i) (f_name (field fw)) = Some (xs ! i))))
     \<and> (length xs \<noteq> 1 \<and> int (length xs) \<noteq> n \<longrightarrow>
           (\<exists>e. get_constructor_arguments dw args n = Inl e)
           \<and> (\<forall>pre post.
                 dw_fields dw = pre @ fw # post
                 \<and> (\<forall>w \<in> set pre. f_init (field w) \<and> \<not> is_dataclass w \<longrightarrow>
                        (\<exists>v. instance_argument True n args 0 w = Inr v))
                 \<longrightarrow> get_constructor_arguments dw args n
                       = Inl (InconsistentArgumentError
                                (inconsistent_message (f_name (field fw)) (length xs) n))))
     \<and> ((\<forall>w \<in> set (dw_fields dw). f_init (field w) \<and> \<not> is_dataclass w \<longrightarrow>
            \<not> is_tuple_or_list_of_dataclasses w
            \<and> (\<exists>ys. map_of args (FieldWrapper_name w) = Some (VList ys)
                      \<and> (length ys = 1 \<or> int (length ys) = n)))
         \<longrightarrow> (\<exists>ds. get_constructor_arguments dw args n = Inr ds))"
proof -
  note arg = instance_argument_list [OF fw(4) raw]
  have stored: "length ds = nat n
      \<and> (\<forall>i < nat n. \<exists>v. instance_argument True n args i fw = Inr v
                          \<and> map_of (ds ! i) (f_name (field fw)) = Some v)"
    if ok: "get_constructor_arguments dw args n = Inr ds" for ds
  proof -
    from get_constructor_arguments_success [OF ok] multiple
    have len: "length ds = nat n"
      and each: "\<forall>i < nat n. instance_arguments_loop True n args i (dw_fields dw) [] = Inr (ds ! i)"
      by simp_all
    show ?thesis
      using len each instance_arguments_loop_value [OF _ names fw(1) fw(2) fw(3)] by blast
  qed
  have broadcast: "length xs = 1 \<longrightarrow>
           (\<forall>ds. get_constructor_arguments dw args n = Inr ds \<longrightarrow>
              length ds = nat n
              \<and> (\<forall>i < nat n. map_of (ds ! i) (f_name (field fw)) = Some (xs ! 0)))"
    using stored by (fastforce simp: arg)
  have distribute: "int (length xs) = n \<longrightarrow>
           (\<forall>ds. get_constructor_arguments dw args n = Inr ds \<longrightarrow>
              length ds = nat n
              \<and> (\<forall>i < nat n. map_of (ds ! i) (f_name (field fw)) = Some (xs ! i)))"
    using stored n by (fastforce simp: arg)
  have inconsistent: "length xs \<noteq> 1 \<and> int (length xs) \<noteq> n \<longrightarrow>
           (\<exists>e. get_constructor_arguments dw args n = Inl e)
           \<and> (\<forall>pre post.
                 dw_fields dw = pre @ fw # post
                 \<and> (\<forall>w \<in> set pre. f_init (field w) \<and> \<not> is_dataclass w \<longrightarrow>
                        (\<exists>v. instance_argument True n args 0 w = Inr v))
                 \<longrightarrow> get_constructor_arguments dw args n
                       = Inl (InconsistentArgumentError
                                (inconsistent_message (f_name (field fw)) (length xs) n)))"
  proof (intro impI conjI allI)
    assume bad: "length xs \<noteq> 1 \<and> int (length xs) \<noteq> n"
    then have e: "instance_argument True n args 0 fw
        = Inl (InconsistentArgumentError (inconsistent_message (f_name (field fw)) (length xs) n))"
      by (simp add: arg)
    from instance_arguments_loop_fails [OF fw(1) fw(2) fw(3) e]
    have "\<exists>e. instance_arguments_loop (DataclassWrapper_multiple dw) n args 0 (dw_fields dw) []
             = Inl e"
      using multiple by simp
    then show "\<exists>e. get_constructor_arguments dw args n = Inl e"
      by (rule get_constructor_arguments_fails)
    fix pre post
    assume first: "dw_fields dw = pre @ fw # post
                 \<and> (\<forall>w \<in> set pre. f_init (field w) \<and> \<not> is_dataclass w \<longrightarrow>
                        (\<exists>v. instance_argument True n args 0 w = Inr v))"
    then have "instance_arguments_loop True n args 0 (dw_fields dw) []
        = Inl (InconsistentArgumentError (inconsistent_message (f_name (field fw)) (length xs) n))"
      using instance_arguments_loop_first_failure [OF _ fw(2) fw(3) e, of pre post "[]"] by simp
    then show "get_constructor_arguments dw args n
        = Inl (InconsistentArgumentError (inconsistent_message (f_name (field fw)) (length xs) n))"
      using multiple n by (intro get_constructor_arguments_first_failure) simp_all
  qed
  have total: "(\<forall>w \<in> set (dw_fields dw). f_init (field w) \<and> \<not> is_dataclass w \<longrightarrow>
            \<not> is_tuple_or_list_of_dataclasses w
            \<and> (\<exists>ys. map_of args (FieldWrapper_name w) = Some (VList ys)
                      \<and> (length ys = 1 \<or> int (length ys) = n)))
         \<longrightarrow> (\<exists>ds. get_constructor_arguments dw args n = Inr ds)"
  proof
    assume all: "\<forall>w \<in> set (dw_fields dw). f_init (field w) \<and> \<not> is_dataclass w \<longrightarrow>
            \<not> is_tuple_or_list_of_dataclasses w
            \<and> (\<exists>ys. map_of args (FieldWrapper_name w) = Some (VList ys)
                      \<and> (length ys = 1 \<or> int (length ys) = n))"
    have "\<exists>d. instance_arguments_loop True n args i (dw_fields dw) [] = Inr d" for i
    proof (rule instance_arguments_loop_total, intro ballI impI)
      fix w assume "w \<in> set (dw_fields dw)" "f_init (field w) \<and> \<not> is_dataclass w"
      with all obtain ys where "\<not> is_tuple_or_list_of_dataclasses w"
        "map_of args (FieldWrapper_name w) = Some (VList ys)" "length ys = 1 \<or> int (length ys) = n"
        by blast
      then show "\<exists>v. instance_argument True n args i w = Inr v"
        by (auto simp: instance_argument_list)
    qed
    then show "\<exists>ds. get_constructor_arguments dw args n = Inr ds"
      using multiple n by (intro get_constructor_arguments_total) simp_all
  qed
  from broadcast distribute inconsistent total show ?thesis by blast
qed

theorem multiple_mode_reconciliation_witness:
  "get_constructor_arguments (Config_multiple [])
     [(''n'', VList [VInt 1, VInt 2, VInt 3]), (''c'', VList [VStr ''RED'']),
      (''flag'', VList [VNone])] 3
   = Inr [[(''n'', VInt 1), (''c'', VStr ''RED''), (''flag'', VNone)],
          [(''n'', VInt 2), (''c'', VStr ''RED''), (''flag'', VNone)],
          [(''n'', VInt 3), (''c'', VStr ''RED''), (''flag'', VNone)]]
   \<and> get_constructor_arguments (Config_multiple [])
     [(''n'', VList [VInt 1, VInt 2]), (''c'', VList [VStr ''RED'']),
      (''flag'', VList [VNone])] 3
   = Inl (InconsistentArgumentError
            (''The field '' @ [CHR 0x27] @ ''n'' @ [CHR 0x27]
               @ '' contains 2 values, but either 1 or 3 values were expected.''))"
  using multiple_mode_reconciliation
    [of "Config_multiple []" 3 "dw_fields (Config_multiple []) ! 0"
        "[(''n'', VList [VInt 1, VInt 2, VInt 3]), (''c'', VList [VStr ''RED'']),
          (''flag'', VList [VNone])]" "[VInt 1, VInt 2, VInt 3]"]
  by (simp add: Config_multiple_fields run_defs)

text \<open>
  The claim as stated fails in two ways. A field that is a list of dataclasses takes
  part in construction and is not a nested record, yet with a raw value of length 1 the
  call stops at the assertion of line 213. And with three instances, when the lists of
  both \<^verbatim>\<open>n\<close> and \<^verbatim>\<open>c\<close> have length 2, the error raised names \<^verbatim>\<open>n\<close>, the field
  declared first, and not \<^verbatim>\<open>c\<close>.
\<close>

theorem multiple_mode_reconciliation_counterexample:
  "get_constructor_arguments Group_multiple [(''items'', VList [VList []])] 2
   = Inl AssertionError
   \<and> get_constructor_arguments (Config_multiple [])
       [(''n'', VList [VInt 1, VInt 2]), (''c'', VList [VStr ''RED'', VStr ''GREEN'']),
        (''flag'', VList [VNone])] 3
     = Inl (InconsistentArgumentError
              (''The field '' @ [CHR 0x27] @ ''n'' @ [CHR 0x27]
                 @ '' contains 2 values, but either 1 or 3 values were expected.''))
   \<and> ''The field '' @ [CHR 0x27] @ ''n'' @ [CHR 0x27]
         @ '' contains 2 values, but either 1 or 3 values were expected.''
       \<noteq> inconsistent_message ''c'' 2 3"
  by (simp add: Group_multiple_def DataclassWrapper_init_def FieldWrapper_init_def
        new_dict_def DataclassWrapper_multiple_setter_def FieldWrapper_multiple_setter_def
        DataclassWrapper_multiple_def Config_multiple_def Config_def run_defs)

lemma instance_argument_Inr:
  assumes "instance_argument m n args i fw = Inr a"
  shows "\<exists>v. map_of args (FieldWrapper_name fw) = Some v
     \<and> (if m then \<exists>xs. v = VList xs \<and> (length xs = 1 \<or> int (length xs) = n)
                       \<and> a = (if length xs = 1 then xs ! 0 else xs ! i)
         else a = v)"
proof -
  from assms obtain v where v: "map_of args (FieldWrapper_name fw) = Some v"
    by (auto simp: instance_argument_def split: if_splits option.splits)
  show ?thesis
  proof (cases m)
    case False
    with assms v show ?thesis
      by (auto simp: instance_argument_def split: if_splits)
  next
    case True
    with assms v obtain xs where "v = VList xs"
      by (cases v) (auto simp: instance_argument_def split: if_splits)
    with assms v True show ?thesis
      by (auto simp: instance_argument_def split: if_splits)
  qed
qed

lemma instance_argument_missing:
  "map_of args (FieldWrapper_name fw) = None \<Longrightarrow> instance_argument m n args i fw = Inl AssertionError"
  by (simp add: instance_argument_def)

lemma Config_wrapper_single:
  "DataclassWrapper_multiple (Config_wrapper p) = False"
  "dataclass (Config_wrapper p) = Config"
  by (simp_all add: Config_wrapper_def DataclassWrapper_init_def DataclassWrapper_multiple_def
        split_beta)

text \<open>
  Claim C10. For a field that takes part in construction and is not a dataclass, the
  raw value is looked up under the prefixed name, \<^verbatim>\<open>name_prefix + field.name\<close>: when
  that key is missing the call raises; when the call returns, the key was there, and
  every returned dictionary holds the value taken from it (in multiple mode the element
  of the list found there) under the unprefixed \<^verbatim>\<open>field.name\<close>. The keys of every
  returned dictionary are exactly the unprefixed names of those fields, in declaration
  order. Field names are distinct, as in every dataclass.
\<close>

theorem prefixed_lookup_unprefixed_keys:
  assumes fw: "fw \<in> set (dw_fields dw)" "f_init (field fw)" "\<not> is_dataclass fw"
  shows "FieldWrapper_name fw = name_prefix fw @ f_name (field fw)
     \<and> (map_of args (name_prefix fw @ f_name (field fw)) = None \<longrightarrow>
           (\<exists>e. get_constructor_arguments dw args n = Inl e))
     \<and> (\<forall>ds. get_constructor_arguments dw args n = Inr ds
             \<and> distinct (map (\<lambda>w. f_name (field w)) (dw_fields dw)) \<longrightarrow>
           (\<exists>v. map_of args (name_prefix fw @ f_name (field fw)) = Some v
              \<and> (if DataclassWrapper_multiple dw
                  then \<exists>xs. v = VList xs
                         \<and> (\<forall>i < length ds. map_of (ds ! i) (f_name (field fw))
                                = Some (if length xs = 1 then xs ! 0 else xs ! i))
                  else \<forall>i < length ds. map_of (ds ! i) (f_name (field fw)) = Some v))
           \<and> (\<forall>i < length ds.
                 map fst (ds ! i)
                   = map (\<lambda>w. f_name (field w))
                       (filter (\<lambda>w. f_init (field w) \<and> \<not> is_dataclass w) (dw_fields dw))))"
proof -
  have name: "FieldWrapper_name fw = name_prefix fw @ f_name (field fw)"
    by (simp add: FieldWrapper_name_def)
  have missing: "map_of args (name_prefix fw @ f_name (field fw)) = None \<longrightarrow>
           (\<exists>e. get_constructor_arguments dw args n = Inl e)"
  proof
    assume "map_of args (name_prefix fw @ f_name (field fw)) = None"
    then have "instance_argument (DataclassWrapper_multiple dw) n args 0 fw = Inl AssertionError"
      by (simp add: instance_argument_missing name)
    from instance_arguments_loop_fails [OF fw this]
    show "\<exists>e. get_constructor_arguments dw args n = Inl e"
      by (rule get_constructor_arguments_fails)
  qed
  have returned: "(\<exists>v. map_of args (name_prefix fw @ f_name (field fw)) = Some v
              \<and> (if DataclassWrapper_multiple dw
                  then \<exists>xs. v = VList xs
                         \<and> (\<forall>i < length ds. map_of (ds ! i) (f_name (field fw))
                                = Some (if length xs = 1 then xs ! 0 else xs ! i))
                  else \<forall>i < length ds. map_of (ds ! i) (f_name (field fw)) = Some v))
           \<and> (\<forall>i < length ds.
                 map fst (ds ! i)
                   = map (\<lambda>w. f_name (field w))
                       (filter (\<lambda>w. f_init (field w) \<and> \<not> is_dataclass w) (dw_fields dw)))"
    if ok: "get_constructor_arguments dw args n = Inr ds"
      and names: "distinct (map (\<lambda>w. f_name (field w)) (dw_fields dw))" for ds
  proof -
    let ?m = "DataclassWrapper_multiple dw"
    from get_constructor_arguments_success [OF ok]
    have n: "if ?m then n > 1 else n = 1" and len: "length ds = nat n"
      and each: "\<forall>i < nat n. instance_arguments_loop ?m n args i (dw_fields dw) [] = Inr (ds ! i)"
      by simp_all
    have stored: "\<exists>a. instance_argument ?m n args i fw = Inr a
                    \<and> map_of (ds ! i) (f_name (field fw)) = Some a" if "i < nat n" for i
      using that each instance_arguments_loop_value [OF _ names fw] by blast
    from n have pos: "0 < nat n" by (auto split: if_splits)
    from stored [OF pos] obtain a0 where "instance_argument ?m n args 0 fw = Inr a0"
      by blast
    from instance_argument_Inr [OF this]
    obtain v where v: "map_of args (FieldWrapper_name fw) = Some v"
      and shape: "?m \<longrightarrow> (\<exists>xs. v = VList xs)"
      by (auto split: if_splits)
    have vals: "if ?m
                  then \<exists>xs. v = VList xs
                         \<and> (\<forall>i < length ds. map_of (ds ! i) (f_name (field fw))
                                = Some (if length xs = 1 then xs ! 0 else xs ! i))
                  else \<forall>i < length ds. map_of (ds ! i) (f_name (field fw)) = Some v"
    proof (cases ?m)
      case False
      have "map_of (ds ! i) (f_name (field fw)) = Some v" if "i < length ds" for i
      proof -
        from that len stored obtain a where a: "instance_argument ?m n args i fw = Inr a"
          "map_of (ds ! i) (f_name (field fw)) = Some a" by auto
        from instance_argument_Inr [OF a(1)] v False show ?thesis by (simp add: a(2))
      qed
      with False show ?thesis by simp
    next
      case True
      with shape obtain xs where xs: "v = VList xs" by blast
      have "map_of (ds ! i) (f_name (field fw)) = Some (if length xs = 1 then xs ! 0 else xs ! i)"
        if "i < length ds" for i
      proof -
        from that len stored obtain a where a: "instance_argument ?m n args i fw = Inr a"
          "map_of (ds ! i) (f_name (field fw)) = Some a" by auto
        from instance_argument_Inr [OF a(1)] v True xs show ?thesis by (simp add: a(2))
      qed
      with True xs show ?thesis by simp
    qed
    have keys: "map fst (ds ! i)
                   = map (\<lambda>w. f_name (field w))
                       (filter (\<lambda>w. f_init (field w) \<and> \<not> is_dataclass w) (dw_fields dw))"
      if "i < length ds" for i
    proof -
      from that len each
      have "instance_arguments_loop ?m n args i (dw_fields dw) [] = Inr (ds ! i)" by simp
      from instance_arguments_loop_keys [OF this] names show ?thesis by simp
    qed
    from v vals keys show ?thesis by (simp add: name)
  qed
  from name missing returned show ?thesis by blast
qed

theorem prefixed_lookup_unprefixed_keys_witness:
  "get_constructor_arguments (Config_wrapper ''cfg.'')
     [(''cfg.n'', VInt 3), (''cfg.c'', VStr ''GREEN''), (''cfg.flag'', VNone)] 1
   = Inr [[(''n'', VInt 3), (''c'', VStr ''GREEN''), (''flag'', VNone)]]
   \<and> get_constructor_arguments (Config_wrapper ''cfg.'')
     [(''n'', VInt 3), (''c'', VStr ''GREEN''), (''flag'', VNone)] 1
   = Inl AssertionError"
  using prefixed_lookup_unprefixed_keys
    [of "dw_fields (Config_wrapper ''cfg.'') ! 0" "Config_wrapper ''cfg.''"
        "[(''cfg.n'', VInt 3), (''cfg.c'', VStr ''GREEN''), (''cfg.flag'', VNone)]" 1]
  by (simp add: Config_wrapper_fields Config_wrapper_single run_defs)

section \<open>Materialization\<close>

lemma constructor_args_loop_untouched:
  "constructor_args_loop args fws ca = Inr d \<Longrightarrow>
   k \<notin> (\<lambda>w. f_name (field w)) ` {w \<in> set fws. f_init (field w)} \<Longrightarrow>
   map_of d k = map_of ca k"
proof (induction fws arbitrary: ca)
  case Nil
  then show ?case by simp
next
  case (Cons w fws)
  show ?case
  proof (cases "f_init (field w)")
    case False
    with Cons.prems(1) have rest: "constructor_args_loop args fws ca = Inr d"
      by simp
    have "k \<notin> (\<lambda>w. f_name (field w)) ` {w \<in> set fws. f_init (field w)}"
      using Cons.prems(2) by auto
    from Cons.IH [OF rest this] show ?thesis .
  next
    case True
    with Cons.prems obtain v where v: "constructor_arg args w = Inr v"
      and rest: "constructor_args_loop args fws (AList.update (f_name (field w)) v ca) = Inr d"
      by (auto split: sum.splits)
    have "map_of d k = map_of (AList.update (f_name (field w)) v ca) k"
      using Cons.IH [OF rest] Cons.prems(2) by auto
    also have "\<dots> = map_of ca k"
      using True Cons.prems(2) by (auto simp: update_conv')
    finally show ?thesis .
  qed
qed

lemma constructor_args_loop_value:
  "constructor_args_loop args fws ca = Inr d \<Longrightarrow>
   distinct (map (\<lambda>w. f_name (field w)) fws) \<Longrightarrow>
   fw \<in> set fws \<Longrightarrow> f_init (field fw) \<Longrightarrow>
   \<exists>v. constructor_arg args fw = Inr v \<and> map_of d (f_name (field fw)) = Some v"
proof (induction fws arbitrary: ca)
  case Nil
  then show ?case by simp
next
  case (Cons w fws)
  show ?case
  proof (cases "fw = w")
    case True
    with Cons.prems obtain v where v: "constructor_arg args w = Inr v"
      and rest: "constructor_args_loop args fws (AList.update (f_name (field w)) v ca) = Inr d"
      by (auto split: sum.splits)
    have "f_name (field w) \<notin> (\<lambda>w. f_name (field w)) ` {w \<in> set fws. f_init (field w)}"
      using Cons.prems(2) by auto
    from constructor_args_loop_untouched [OF rest this]
    show ?thesis using v True by (simp add: update_conv')
  next
    case False
    with Cons.prems have mem: "fw \<in> set fws" and dist: "distinct (map (\<lambda>w. f_name (field w)) fws)"
      by auto
    from Cons.prems(1) obtain ca' where "constructor_args_loop args fws ca' = Inr d"
      by (auto split: sum.splits if_splits)
    from Cons.IH [OF this dist mem Cons.prems(4)] show ?thesis .
  qed
qed

lemma constructor_args_loop_fails:
  "fw \<in> set fws \<Longrightarrow> f_init (field fw) \<Longrightarrow> constructor_arg args fw = Inl e \<Longrightarrow>
   \<exists>e'. constructor_args_loop args fws ca = Inl e'"
proof (induction fws arbitrary: ca)
  case Nil
  then show ?case by simp
next
  case (Cons w fws)
  show ?case
  proof (cases "fw = w")
    case True
    with Cons.prems show ?thesis by simp
  next
    case False
    with Cons.prems have "\<And>ca. \<exists>e'. constructor_args_loop args fws ca = Inl e'"
      using Cons.IH by auto
    then show ?thesis
      by (auto split: sum.splits)
  qed
qed

lemma constructor_args_loop_total:
  "\<forall>w \<in> set fws. f_init (field w) \<longrightarrow> (\<exists>v. constructor_arg args w = Inr v) \<Longrightarrow>
   \<exists>d. constructor_args_loop args fws ca = Inr d"
  by (induction fws arbitrary: ca) (auto split: sum.splits)

lemma instantiate_dataclass_attribute:
  assumes "instantiate_dataclass dw args = Inr inst"
    and "distinct (map (\<lambda>w. f_name (field w)) (dw_fields dw))"
    and "fw \<in> set (dw_fields dw)" "f_init (field fw)"
  shows "\<exists>v. constructor_arg args fw = Inr v \<and> getattr inst (f_name (field fw)) = Some v"
proof -
  from assms(1) obtain d where d: "constructor_args_loop args (dw_fields dw) [] = Inr d"
    and inst: "inst = construct (dataclass dw) d"
    by (auto simp: instantiate_dataclass_def split: sum.splits)
  from constructor_args_loop_value [OF d assms(2) assms(3) assms(4)] inst show ?thesis
    by (simp add: getattr_def construct_def)
qed

lemma instantiate_dataclass_fails:
  assumes "fw \<in> set (dw_fields dw)" "f_init (field fw)" "constructor_arg args fw = Inl e"
  shows "\<exists>e'. instantiate_dataclass dw args = Inl e'"
  using constructor_args_loop_fails [OF assms, of "[]"]
  by (auto simp: instantiate_dataclass_def)

lemma instantiate_dataclass_total:
  assumes "\<forall>w \<in> set (dw_fields dw). f_init (field w) \<longrightarrow> (\<exists>v. constructor_arg args w = Inr v)"
  shows "\<exists>inst. instantiate_dataclass dw args = Inr inst \<and> inst_class inst = dataclass dw"
  using constructor_args_loop_total [OF assms, of "[]"]
  by (auto simp: instantiate_dataclass_def construct_def)

lemma constructor_arg_bool:
  "f_type (field fw) = TBool \<Longrightarrow> map_of args (f_name (field fw)) = Some v \<Longrightarrow>
   constructor_arg args fw =
     (case v of
        VNone \<Rightarrow> Inr (VBool (\<not> truthy (case f_default (field fw) of
                                             None \<Rightarrow> VBool False | Some d \<Rightarrow> d)))
      | VBool b \<Rightarrow> Inr (VBool b)
      | _ \<Rightarrow> Inl RuntimeError)"
  by (simp add: constructor_arg_def is_tuple_or_list_of_dataclasses_def)

lemma constructor_arg_enum:
  "f_type (field fw) = TEnum e ms \<Longrightarrow> map_of args (f_name (field fw)) = Some v \<Longrightarrow>
   constructor_arg args fw = enum_getitem (TEnum e ms) v"
  by (simp add: constructor_arg_def is_tuple_or_list_of_dataclasses_def)

text \<open>
  Claim C5. For a boolean field whose parsed value is \<open>v\<close>: when \<open>v\<close> is \<^verbatim>\<open>None\<close> the
  constructor argument is \<^verbatim>\<open>not default\<close>, the declared default being taken as \<^verbatim>\<open>False\<close>
  when none is declared (so the argument is then \<^verbatim>\<open>True\<close>); when \<open>v\<close> is a boolean it is
  passed through; for every other \<open>v\<close> a \<^verbatim>\<open>RuntimeError\<close> is raised, and the step for this
  field raises in exactly those cases. For the whole of \<^verbatim>\<open>instantiate_dataclass\<close>: such a
  \<open>v\<close> makes the call raise, and when the call returns, the instance holds the
  constructor argument under the field's name.
\<close>

theorem boolean_materialization:
  assumes bool: "f_type (field fw) = TBool"
    and parsed: "map_of args (f_name (field fw)) = Some v"
  shows "(v = VNone \<longrightarrow>
            constructor_arg args fw
              = Inr (VBool (\<not> truthy (case f_default (field fw) of
                                          None \<Rightarrow> VBool False | Some d \<Rightarrow> d))))
     \<and> (v = VNone \<and> f_default (field fw) = None \<longrightarrow> constructor_arg args fw = Inr (VBool True))
     \<and> (\<forall>b0. v = VNone \<and> f_default (field fw) = Some (VBool b0) \<longrightarrow>
               constructor_arg args fw = Inr (VBool (\<not> b0)))
     \<and> (\<forall>b. v = VBool b \<longrightarrow> constructor_arg args fw = Inr (VBool b))
     \<and> (v \<noteq> VNone \<and> (\<forall>b. v \<noteq> VBool b) \<longrightarrow> constructor_arg args fw = Inl RuntimeError)
     \<and> ((\<exists>e. constructor_arg args fw = Inl e) \<longleftrightarrow> v \<noteq> VNone \<and> (\<forall>b. v \<noteq> VBool b))
     \<and> (fw \<in> set (dw_fields dw) \<and> f_init (field fw) \<longrightarrow>
          (v \<noteq> VNone \<and> (\<forall>b. v \<noteq> VBool b) \<longrightarrow> (\<exists>e. instantiate_dataclass dw args = Inl e))
          \<and> (\<forall>inst. instantiate_dataclass dw args = Inr inst
                \<and> distinct (map (\<lambda>w. f_name (field w)) (dw_fields dw)) \<longrightarrow>
                (\<exists>a. constructor_arg args fw = Inr a
                      \<and> getattr inst (f_name (field fw)) = Some a)))"
proof -
  note arg = constructor_arg_bool [OF bool parsed]
  have field_level:
    "v = VNone \<longrightarrow>
       constructor_arg args fw
         = Inr (VBool (\<not> truthy (case f_default (field fw) of
                                     None \<Rightarrow> VBool False | Some d \<Rightarrow> d)))"
    "v = VNone \<and> f_default (field fw) = None \<longrightarrow> constructor_arg args fw = Inr (VBool True)"
    "\<forall>b0. v = VNone \<and> f_default (field fw) = Some (VBool b0) \<longrightarrow>
               constructor_arg args fw = Inr (VBool (\<not> b0))"
    "\<forall>b. v = VBool b \<longrightarrow> constructor_arg args fw = Inr (VBool b)"
    by (auto simp: arg)
  have raises: "v \<noteq> VNone \<and> (\<forall>b. v \<noteq> VBool b) \<longrightarrow> constructor_arg args fw = Inl RuntimeError"
    by (cases v) (simp_all add: arg)
  have exactly: "(\<exists>e. constructor_arg args fw = Inl e) \<longleftrightarrow> v \<noteq> VNone \<and> (\<forall>b. v \<noteq> VBool b)"
    by (cases v) (simp_all add: arg)
  have whole: "fw \<in> set (dw_fields dw) \<and> f_init (field fw) \<longrightarrow>
          (v \<noteq> VNone \<and> (\<forall>b. v \<noteq> VBool b) \<longrightarrow> (\<exists>e. instantiate_dataclass dw args = Inl e))
          \<and> (\<forall>inst. instantiate_dataclass dw args = Inr inst
                \<and> distinct (map (\<lambda>w. f_name (field w)) (dw_fields dw)) \<longrightarrow>
                (\<exists>a. constructor_arg args fw = Inr a
                      \<and> getattr inst (f_name (field fw)) = Some a))"
    using raises instantiate_dataclass_fails [of fw dw args RuntimeError]
      instantiate_dataclass_attribute [of dw args _ fw]
    by blast
  from field_level raises exactly whole show ?thesis by blast
qed

theorem boolean_materialization_witness:
  "instantiate_dataclass (Config_wrapper [])
     [(''n'', VInt 3), (''c'', VStr ''GREEN''), (''flag'', VNone)]
   = Inr \<lparr>inst_class = Config,
          inst_attrs = [(''n'', VInt 3), (''c'', VEnum ''Color'' ''GREEN''),
                        (''flag'', VBool True)]\<rparr>
   \<and> instantiate_dataclass (Config_wrapper [])
     [(''n'', VInt 3), (''c'', VStr ''GREEN''), (''flag'', VBool False)]
   = Inr \<lparr>inst_class = Config,
          inst_attrs = [(''n'', VInt 3), (''c'', VEnum ''Color'' ''GREEN''),
                        (''flag'', VBool False)]\<rparr>
   \<and> instantiate_dataclass (Config_wrapper [])
     [(''n'', VInt 3), (''c'', VStr ''GREEN''), (''flag'', VStr ''yes'')]
   = Inl RuntimeError"
  using boolean_materialization
    [of "dw_fields (Config_wrapper []) ! 2"
        "[(''n'', VInt 3), (''c'', VStr ''GREEN''), (''flag'', VNone)]" VNone "Config_wrapper []"]
  by (simp add: Config_wrapper_fields Config_wrapper_single instantiate_dataclass_def
        constructor_arg_def construct_def is_tuple_or_list_of_dataclasses_def Color_def)

text \<open>
  Claim C9. For an enumeration field and a member name \<open>m\<close> of its type, materializing
  an argument dictionary that maps the field's name to the string \<open>m\<close> gives the member
  named \<open>m\<close>: that is the field's constructor argument, it is the field of every
  instance \<^verbatim>\<open>instantiate_dataclass\<close> returns, and the call does return an instance of the
  wrapped dataclass when the other fields' values can be materialized.
\<close>

theorem enumeration_round_trip:
  assumes enum: "f_type (field fw) = TEnum e ms"
    and member: "m \<in> set ms"
    and parsed: "map_of args (f_name (field fw)) = Some (VStr m)"
  shows "constructor_arg args fw = Inr (VEnum e m)
     \<and> (fw \<in> set (dw_fields dw) \<and> f_init (field fw)
          \<and> distinct (map (\<lambda>w. f_name (field w)) (dw_fields dw)) \<longrightarrow>
          (\<forall>inst. instantiate_dataclass dw args = Inr inst \<longrightarrow>
                getattr inst (f_name (field fw)) = Some (VEnum e m))
          \<and> ((\<forall>w \<in> set (dw_fields dw). w \<noteq> fw \<and> f_init (field w) \<longrightarrow>
                  (\<exists>a. constructor_arg args w = Inr a))
              \<longrightarrow> (\<exists>inst. instantiate_dataclass dw args = Inr inst
                      \<and> inst_class inst = dataclass dw
                      \<and> getattr inst (f_name (field fw)) = Some (VEnum e m))))"
proof -
  have arg: "constructor_arg args fw = Inr (VEnum e m)"
    using member by (simp add: constructor_arg_enum [OF enum parsed])
  have whole: "(\<forall>inst. instantiate_dataclass dw args = Inr inst \<longrightarrow>
                getattr inst (f_name (field fw)) = Some (VEnum e m))
          \<and> ((\<forall>w \<in> set (dw_fields dw). w \<noteq> fw \<and> f_init (field w) \<longrightarrow>
                  (\<exists>a. constructor_arg args w = Inr a))
              \<longrightarrow> (\<exists>inst. instantiate_dataclass dw args = Inr inst
                      \<and> inst_class inst = dataclass dw
                      \<and> getattr inst (f_name (field fw)) = Some (VEnum e m)))"
    if fw: "fw \<in> set (dw_fields dw)" "f_init (field fw)"
      and names: "distinct (map (\<lambda>w. f_name (field w)) (dw_fields dw))"
  proof -
    have attr: "getattr inst (f_name (field fw)) = Some (VEnum e m)"
      if "instantiate_dataclass dw args = Inr inst" for inst
      using instantiate_dataclass_attribute [OF that names fw] arg by simp
    have "\<exists>inst. instantiate_dataclass dw args = Inr inst \<and> inst_class inst = dataclass dw"
      if "\<forall>w \<in> set (dw_fields dw). w \<noteq> fw \<and> f_init (field w) \<longrightarrow>
                  (\<exists>a. constructor_arg args w = Inr a)"
      using that arg by (intro instantiate_dataclass_total) auto
    with attr show ?thesis by blast
  qed
  from arg whole show ?thesis by blast
qed

theorem enumeration_round_trip_witness:
  "f_type (field (dw_fields (Config_wrapper []) ! 1)) = TEnum ''Color'' [''RED'', ''GREEN'', ''BLUE'']
   \<and> (\<exists>inst. instantiate_dataclass (Config_wrapper [])
               [(''n'', VInt 3), (''c'', VStr ''BLUE''), (''flag'', VNone)] = Inr inst
         \<and> inst_class inst = Config
         \<and> getattr inst ''c'' = Some (VEnum ''Color'' ''BLUE''))"
  using enumeration_round_trip
    [of "dw_fields (Config_wrapper []) ! 1" "''Color''" "[''RED'', ''GREEN'', ''BLUE'']" "''BLUE''"
        "[(''n'', VInt 3), (''c'', VStr ''BLUE''), (''flag'', VNone)]" "Config_wrapper []"]
  by (simp add: Config_wrapper_fields Config_wrapper_single Color_def constructor_arg_def
        is_tuple_or_list_of_dataclasses_def)

end
